theory Spec2Isabelle
  imports Main "HOL-Library.Word"
begin

section \<open>The prefix logger (package log)\<close>

subsection \<open>Colour of a prefix\<close>

text \<open>
  \<^verbatim>\<open>var Colors = []string{"blue", "green", "yellow", "magenta", "cyan", "white+b"}\<close>
\<close>

definition Colors :: "string list" where
  "Colors = [''blue'', ''green'', ''yellow'', ''magenta'', ''cyan'', ''white+b'']"

text \<open>
  Go's \<^verbatim>\<open>%\<close> on signed integers truncates towards zero: the remainder has the sign of
  the dividend.
\<close>

definition go_rem :: "int \<Rightarrow> int \<Rightarrow> int" where
  "go_rem a b = sgn a * (\<bar>a\<bar> mod \<bar>b\<bar>)"

text \<open>
  Go's \<^verbatim>\<open>int\<close> is a two's complement machine integer of the platform's width (64 bits
  on amd64 and arm64, 32 bits on 386 and arm); it is a word of width \<open>'a\<close> here, read with
  \<open>sint\<close>. Multiplication wraps around.

  \<^verbatim>\<open>
  if hashNumber < 0 {
      hashNumber = hashNumber * -1
  }
  \<close>
\<close>

definition negateIfNegative :: "'a::len word \<Rightarrow> 'a word" where
  "negateIfNegative hashNumber = (if sint hashNumber < 0 then hashNumber * (- 1) else hashNumber)"

text \<open>The index expression \<^verbatim>\<open>hashNumber%len(Colors)\<close>.\<close>

definition colorIndex :: "'a::len word \<Rightarrow> int" where
  "colorIndex hashNumber = go_rem (sint (negateIfNegative hashNumber)) (int (length Colors))"

datatype panic = IndexOutOfRange int

text \<open>Indexing a slice panics when the index is negative or not below the length.\<close>

definition index_slice :: "'b list \<Rightarrow> int \<Rightarrow> panic + 'b" where
  "index_slice xs i = (if 0 \<le> i \<and> i < int (length xs) then Inr (xs ! nat i) else Inl (IndexOutOfRange i))"

text \<open>
  The levels of logrus, in the order of their numeric values
  (\<^verbatim>\<open>PanicLevel = 0\<close> up to \<^verbatim>\<open>TraceLevel = 6\<close>).
\<close>

datatype Level = PanicLevel | FatalLevel | ErrorLevel | WarnLevel | InfoLevel | DebugLevel | TraceLevel

fun level_num :: "Level \<Rightarrow> nat" where
  "level_num PanicLevel = 0"
| "level_num FatalLevel = 1"
| "level_num ErrorLevel = 2"
| "level_num WarnLevel = 3"
| "level_num InfoLevel = 4"
| "level_num DebugLevel = 5"
| "level_num TraceLevel = 6"

text \<open>
  \<^verbatim>\<open>prefixLogger\<close>. The base logger is an interface and stands outside; \<open>locked\<close> is the
  state of the mutex \<^verbatim>\<open>m\<close>.
\<close>

record prefixLogger =
  level :: Level
  prefix :: string
  color :: string
  locked :: bool

text \<open>
  \<^verbatim>\<open>NewDefaultPrefixLogger(prefix, base)\<close>. The function \<^verbatim>\<open>hash.StringToNumber\<close> is not
  among the sources: \<open>StringToNumber\<close> is a parameter that gives, for a prefix, the value
  of \<^verbatim>\<open>int(hash.StringToNumber(prefix))\<close>. Of the base logger only its level is read
  (\<^verbatim>\<open>base.GetLevel()\<close>), so \<open>baseLevel\<close> stands for it. The result is \<open>Inl\<close> when indexing
  \<^verbatim>\<open>Colors\<close> panics.
\<close>

definition NewDefaultPrefixLogger ::
  "(string \<Rightarrow> 'a::len word) \<Rightarrow> string \<Rightarrow> Level \<Rightarrow> panic + prefixLogger" where
  "NewDefaultPrefixLogger StringToNumber pfx baseLevel =
     (case index_slice Colors (colorIndex (StringToNumber pfx)) of
        Inl p \<Rightarrow> Inl p
      | Inr c \<Rightarrow> Inr \<lparr>level = baseLevel, prefix = pfx, color = c, locked = False\<rparr>)"

subsection \<open>Writing messages\<close>

text \<open>
  What the logger reads from its surroundings when it writes: whether the environment
  variable \<^verbatim>\<open>DevSpaceLogTimestamps\<close> is \<^verbatim>\<open>"true"\<close>, the wall clock (hour, minute,
  second), and the two formatting helpers \<^verbatim>\<open>ansi.Color\<close> and \<^verbatim>\<open>formatInt\<close>, which are
  not among the sources and are parameters here.
\<close>

record logEnv =
  timestamps :: bool
  now :: "nat \<times> nat \<times> nat"
  ansiColor :: "string \<Rightarrow> string \<Rightarrow> string"
  formatInt :: "nat \<Rightarrow> string"
  othersCanRun :: bool

text \<open>
  \<open>othersCanRun\<close> says whether, when the calling goroutine blocks, some other goroutine of
  the process can still run. When none can, the Go runtime stops the process with the fatal
  error that all goroutines are asleep, exit status 2.
\<close>

text \<open>
  The process as far as logging touches it: the strings handed to the base logger with
  \<^verbatim>\<open>s.base.WriteString(level, message)\<close>, in order, and the exit status once
  \<^verbatim>\<open>os.Exit\<close> has been called (\<open>None\<close> while the process runs).
\<close>

record process =
  written :: "(Level \<times> string) list"
  exited :: "int option"

definition base_WriteString :: "Level \<Rightarrow> string \<Rightarrow> process \<Rightarrow> process" where
  "base_WriteString lv message p = p\<lparr>written := written p @ [(lv, message)]\<rparr>"

definition os_Exit :: "int \<Rightarrow> process \<Rightarrow> process" where
  "os_Exit code p = p\<lparr>exited := Some code\<rparr>"

definition timeString :: "logEnv \<Rightarrow> string" where
  "timeString e = (case now e of (h, m, s) \<Rightarrow>
     formatInt e h @ '':'' @ formatInt e m @ '':'' @ formatInt e s @ '' '')"

text \<open>
  \<^verbatim>\<open>s.m.Lock()\<close>: a \<^verbatim>\<open>sync.Mutex\<close> is not reentrant. The model follows one goroutine
  through a call, and \<open>locked\<close> says that this goroutine holds the mutex. A \<^verbatim>\<open>Lock\<close> that
  finds it so waits for an unlock that cannot come: the goroutine blocks for ever while
  others run, and when none can run the runtime ends the process.
\<close>

datatype 'a attempt = Got 'a | BlocksForever | Deadlock

definition Lock :: "logEnv \<Rightarrow> prefixLogger \<Rightarrow> prefixLogger attempt" where
  "Lock e s =
     (if locked s then (if othersCanRun e then BlocksForever else Deadlock)
      else Got (s\<lparr>locked := True\<rparr>))"

definition Unlock :: "prefixLogger \<Rightarrow> prefixLogger" where
  "Unlock s = s\<lparr>locked := False\<rparr>"

text \<open>The process after the runtime has found the deadlock.\<close>

definition deadlockExit :: "process \<Rightarrow> process" where
  "deadlockExit p = p\<lparr>exited := Some 2\<rparr>"

text \<open>
  \<^verbatim>\<open>GetLevel\<close> locks, reads the level and unlocks: the logger is left as it was found.
\<close>

definition GetLevel :: "logEnv \<Rightarrow> prefixLogger \<Rightarrow> Level attempt" where
  "GetLevel e s =
     (case Lock e s of
        Got s' \<Rightarrow> Got (level (Unlock s'))
      | BlocksForever \<Rightarrow> BlocksForever
      | Deadlock \<Rightarrow> Deadlock)"

text \<open>
  The condition of line 95,
  \<^verbatim>\<open>os.Getenv(DevSpaceLogTimestamps) == "true" || s.GetLevel() == logrus.DebugLevel\<close>:
  the right operand is evaluated only when the left one is false, and then it calls
  \<^verbatim>\<open>GetLevel\<close>, which takes the mutex.
\<close>

definition withTimestamp :: "logEnv \<Rightarrow> prefixLogger \<Rightarrow> bool attempt" where
  "withTimestamp e s =
     (if timestamps e then Got True
      else (case GetLevel e s of
              Got l \<Rightarrow> Got (l = DebugLevel)
            | BlocksForever \<Rightarrow> BlocksForever
            | Deadlock \<Rightarrow> Deadlock))"

text \<open>
  \<^verbatim>\<open>writeMessage\<close>. The result is the process when the call is over, with its exit status
  set when the process has ended in it; \<open>None\<close> is a call that blocks for ever.
\<close>

definition writeMessage :: "logEnv \<Rightarrow> prefixLogger \<Rightarrow> Level \<Rightarrow> string \<Rightarrow> process \<Rightarrow> process option" where
  "writeMessage e s lv message p =
     (if level_num (level s) \<ge> level_num lv then
        (case withTimestamp e s of
           BlocksForever \<Rightarrow> None
         | Deadlock \<Rightarrow> Some (deadlockExit p)
         | Got ts \<Rightarrow>
             (if ts then
                (if color s \<noteq> [] then
                   Some (base_WriteString lv
                     (ansiColor e (timeString e) ''white+b'' @ ansiColor e (prefix s) (color s) @ message) p)
                 else Some (base_WriteString lv (timeString e @ prefix s @ message) p))
              else
                (if color s \<noteq> [] then
                   Some (base_WriteString lv (ansiColor e (prefix s) (color s) @ message) p)
                 else Some (base_WriteString lv (prefix s @ message) p))))
      else Some p)"

text \<open>
  Every leveled method starts with \<^verbatim>\<open>s.m.Lock()\<close> and \<^verbatim>\<open>defer s.m.Unlock()\<close>, and runs its
  body with the mutex held.
\<close>

definition withLock :: "logEnv \<Rightarrow> prefixLogger \<Rightarrow> process \<Rightarrow> (prefixLogger \<Rightarrow> process option) \<Rightarrow> process option" where
  "withLock e s p body =
     (case Lock e s of
        Got s' \<Rightarrow> body s'
      | BlocksForever \<Rightarrow> None
      | Deadlock \<Rightarrow> Some (deadlockExit p))"

text \<open>\<^verbatim>\<open>os.Exit(1)\<close> after \<^verbatim>\<open>writeMessage\<close>: reached when the call came back and the process still runs.\<close>

definition thenExit :: "process option \<Rightarrow> process option" where
  "thenExit r =
     (case r of
        None \<Rightarrow> None
      | Some p' \<Rightarrow> (if exited p' = None then Some (os_Exit 1 p') else Some p'))"

text \<open>
  The leveled methods. The argument \<open>msg\<close> is the formatted text: the value of
  \<^verbatim>\<open>fmt.Sprintln(args...)\<close> for the plain forms and of \<^verbatim>\<open>fmt.Sprintf(format, args...)\<close>
  for the f-forms, which append the newline themselves. The result is the process when the
  call is over (ended, when it has an exit status), \<open>None\<close> when the call blocks for ever.
\<close>

definition Debug :: "logEnv \<Rightarrow> prefixLogger \<Rightarrow> string \<Rightarrow> process \<Rightarrow> process option" where
  "Debug e s msg p = withLock e s p (\<lambda>s'. writeMessage e s' DebugLevel msg p)"

definition Debugf :: "logEnv \<Rightarrow> prefixLogger \<Rightarrow> string \<Rightarrow> process \<Rightarrow> process option" where
  "Debugf e s msg p = withLock e s p (\<lambda>s'. writeMessage e s' DebugLevel (msg @ [CHR 0x0A]) p)"

definition Info :: "logEnv \<Rightarrow> prefixLogger \<Rightarrow> string \<Rightarrow> process \<Rightarrow> process option" where
  "Info e s msg p = withLock e s p (\<lambda>s'. writeMessage e s' InfoLevel msg p)"

definition Infof :: "logEnv \<Rightarrow> prefixLogger \<Rightarrow> string \<Rightarrow> process \<Rightarrow> process option" where
  "Infof e s msg p = withLock e s p (\<lambda>s'. writeMessage e s' InfoLevel (msg @ [CHR 0x0A]) p)"

definition Warn :: "logEnv \<Rightarrow> prefixLogger \<Rightarrow> string \<Rightarrow> process \<Rightarrow> process option" where
  "Warn e s msg p = withLock e s p (\<lambda>s'. writeMessage e s' WarnLevel (''Warning: '' @ msg) p)"

definition Warnf :: "logEnv \<Rightarrow> prefixLogger \<Rightarrow> string \<Rightarrow> process \<Rightarrow> process option" where
  "Warnf e s msg p = withLock e s p (\<lambda>s'. writeMessage e s' WarnLevel (''Warning: '' @ msg @ [CHR 0x0A]) p)"

definition Error :: "logEnv \<Rightarrow> prefixLogger \<Rightarrow> string \<Rightarrow> process \<Rightarrow> process option" where
  "Error e s msg p = withLock e s p (\<lambda>s'. writeMessage e s' ErrorLevel (''Error: '' @ msg) p)"

definition Errorf :: "logEnv \<Rightarrow> prefixLogger \<Rightarrow> string \<Rightarrow> process \<Rightarrow> process option" where
  "Errorf e s msg p = withLock e s p (\<lambda>s'. writeMessage e s' ErrorLevel (''Error: '' @ msg @ [CHR 0x0A]) p)"

text \<open>
  \<^verbatim>\<open>
  s.m.Lock()
  defer s.m.Unlock()
  msg := fmt.Sprintln(args...)
  s.writeMessage(logrus.FatalLevel, "Fatal: "+msg)
  os.Exit(1)
  \<close>
\<close>

definition Fatal :: "logEnv \<Rightarrow> prefixLogger \<Rightarrow> string \<Rightarrow> process \<Rightarrow> process option" where
  "Fatal e s msg p =
     withLock e s p (\<lambda>s'. thenExit (writeMessage e s' FatalLevel (''Fatal: '' @ msg) p))"

definition Fatalf :: "logEnv \<Rightarrow> prefixLogger \<Rightarrow> string \<Rightarrow> process \<Rightarrow> process option" where
  "Fatalf e s msg p =
     withLock e s p (\<lambda>s'. thenExit (writeMessage e s' FatalLevel (''Fatal: '' @ msg @ [CHR 0x0A]) p))"

definition Done :: "logEnv \<Rightarrow> prefixLogger \<Rightarrow> string \<Rightarrow> process \<Rightarrow> process option" where
  "Done e s msg p = withLock e s p (\<lambda>s'. writeMessage e s' InfoLevel msg p)"

definition Donef :: "logEnv \<Rightarrow> prefixLogger \<Rightarrow> string \<Rightarrow> process \<Rightarrow> process option" where
  "Donef e s msg p = withLock e s p (\<lambda>s'. writeMessage e s' InfoLevel (msg @ [CHR 0x0A]) p)"

text \<open>\<^verbatim>\<open>Print(level, args...)\<close> dispatches on the level; other levels write nothing.\<close>

fun Print :: "logEnv \<Rightarrow> prefixLogger \<Rightarrow> Level \<Rightarrow> string \<Rightarrow> process \<Rightarrow> process option" where
  "Print e s InfoLevel msg p = Info e s msg p"
| "Print e s DebugLevel msg p = Debug e s msg p"
| "Print e s WarnLevel msg p = Warn e s msg p"
| "Print e s ErrorLevel msg p = Error e s msg p"
| "Print e s FatalLevel msg p = Fatal e s msg p"
| "Print e s PanicLevel msg p = Some p"
| "Print e s TraceLevel msg p = Some p"

section \<open>The dev pod manager (package devpod)\<close>

type_synonym name = string

text \<open>
  The errors of the package: \<^verbatim>\<open>DevPodAlreadyExists\<close> (the conflict), the type
  \<^verbatim>\<open>DevPodLostConnection\<close> that the restart goroutine asks for, and any other error, which
  only carries its text.
\<close>

datatype err = DevPodAlreadyExists | DevPodLostConnection | OtherErr string

text \<open>
  Modelled from the spec: the type \<^verbatim>\<open>devPod\<close> with \<^verbatim>\<open>newDevPod\<close>, \<^verbatim>\<open>Alive\<close>, \<^verbatim>\<open>Done\<close>,
  \<^verbatim>\<open>Err\<close>, \<^verbatim>\<open>Start\<close> and \<^verbatim>\<open>Stop\<close> is not among the sources. The spec gives a session a
  name, a done signal that fires once on terminal completion, and a terminal error (nil on
  a clean stop); a session is alive iff its done signal has not fired; stopping a session
  ends it.
\<close>

record devPod =
  sname :: name
  doneFired :: bool
  terminal :: "err option"

definition newDevPod :: devPod where
  "newDevPod = \<lparr>sname = [], doneFired = False, terminal = None\<rparr>"

definition Alive :: "devPod \<Rightarrow> bool" where
  "Alive dp = (\<not> doneFired dp)"

text \<open>\<^verbatim>\<open>dp.Start(ctx, devPodConfig)\<close> as far as the session itself changes: it takes the name of its configuration.\<close>

definition devPod_Start :: "name \<Rightarrow> devPod \<Rightarrow> devPod" where
  "devPod_Start n dp = dp\<lparr>sname := n\<rparr>"

definition devPod_Stop :: "devPod \<Rightarrow> devPod" where
  "devPod_Stop dp = dp\<lparr>doneFired := True\<rparr>"

text \<open>The session ends by itself with a terminal error (its done signal fires); an ended session stays as it is.\<close>

definition devPod_finish :: "err option \<Rightarrow> devPod \<Rightarrow> devPod" where
  "devPod_finish e dp = (if doneFired dp then dp else dp\<lparr>doneFired := True, terminal := e\<rparr>)"

text \<open>
  \<^verbatim>\<open>devPodManager\<close>. The registry \<^verbatim>\<open>devPods map[string]*devPod\<close> maps a name to a pointer;
  the sessions themselves live in \<open>pods\<close>, and a pointer is an index into it, so that a
  session that left the registry is still there for whoever holds its pointer.
  \<open>loggers\<close> lists the names for which \<^verbatim>\<open>Start\<close> has built its union logger (line 98);
  building it is taken to return, and \<^verbatim>\<open>NewDefaultPrefixLogger\<close> is treated on its own above.
  The field \<^verbatim>\<open>restartPods\<close> is never read or written. The two locks make each operation on
  a name atomic with respect to the others on that name, so an operation is one step here.
\<close>

record devPodManager =
  devPods :: "name \<rightharpoonup> nat"
  pods :: "devPod list"
  loggers :: "name list"

definition NewManager :: devPodManager where
  "NewManager = \<lparr>devPods = Map.empty, pods = [], loggers = []\<rparr>"

text \<open>\<^verbatim>\<open>dp != nil && dp.Alive()\<close> for \<^verbatim>\<open>dp = d.devPods[name]\<close>.\<close>

definition aliveRegistered :: "devPodManager \<Rightarrow> name \<Rightarrow> bool" where
  "aliveRegistered d n = (case devPods d n of None \<Rightarrow> False | Some p \<Rightarrow> Alive (pods d ! p))"

text \<open>
  \<^verbatim>\<open>Start\<close> up to the point where it returns. \<open>dpStart\<close> is what \<^verbatim>\<open>dp.Start\<close> returns.
  The goroutine that \<^verbatim>\<open>Start\<close> spawns on success is \<open>restartWatcher\<close> below.
\<close>

definition Start :: "devPodManager \<Rightarrow> name \<Rightarrow> err option \<Rightarrow> err option \<times> devPodManager" where
  "Start d n dpStart =
     (let d1 = d\<lparr>loggers := loggers d @ [n]\<rparr> in
      if aliveRegistered d1 n then (Some DevPodAlreadyExists, d1)
      else
        (let p = length (pods d1);
             d2 = d1\<lparr>pods := pods d1 @ [newDevPod], devPods := (devPods d1)(n \<mapsto> p)\<rparr>;
             d3 = d2\<lparr>pods := (pods d2)[p := devPod_Start n (pods d2 ! p)]\<rparr>
         in (dpStart, d3)))"

text \<open>
  \<^verbatim>\<open>
  dp := d.devPods[name]
  if dp == nil { return }
  dp.Stop()
  delete(d.devPods, name)
  \<close>
\<close>

definition stop :: "devPodManager \<Rightarrow> name \<Rightarrow> devPodManager" where
  "stop d n =
     (case devPods d n of
        None \<Rightarrow> d
      | Some p \<Rightarrow> d\<lparr>pods := (pods d)[p := devPod_Stop (pods d ! p)], devPods := (devPods d)(n := None)\<rparr>)"

definition Stop :: "devPodManager \<Rightarrow> name \<Rightarrow> devPodManager" where
  "Stop d n = stop d n"

text \<open>
  \<^verbatim>\<open>Reset\<close>: \<^verbatim>\<open>d.stop(name)\<close>, then the reversal of a cached pod replacement. \<open>revert\<close>
  is \<open>None\<close> when the remote cache has no record for the name and otherwise what
  \<^verbatim>\<open>RevertReplacePod\<close> returns.
\<close>

definition Reset :: "devPodManager \<Rightarrow> name \<Rightarrow> err option option \<Rightarrow> err option \<times> devPodManager" where
  "Reset d n revert = (case revert of None \<Rightarrow> (None, stop d n) | Some r \<Rightarrow> (r, stop d n))"

text \<open>
  What can happen to a manager: the three operations, and a session ending by itself
  (\<open>Finish p e\<close>: the done signal of the session at \<open>p\<close> fires with terminal error \<open>e\<close>).
\<close>

datatype event =
    EStart name "err option"
  | EStop name
  | EReset name "err option option"
  | EFinish nat "err option"

fun step :: "devPodManager \<Rightarrow> event \<Rightarrow> err option \<times> devPodManager" where
  "step d (EStart n r) = Start d n r"
| "step d (EStop n) = (None, Stop d n)"
| "step d (EReset n r) = Reset d n r"
| "step d (EFinish p e) =
     (None, if p < length (pods d) then d\<lparr>pods := (pods d)[p := devPod_finish e (pods d ! p)]\<rparr> else d)"

text \<open>Running events one after the other: the values returned, in order, and the last state.\<close>

fun run :: "devPodManager \<Rightarrow> event list \<Rightarrow> err option list \<times> devPodManager" where
  "run d [] = ([], d)"
| "run d (ev # evs) =
     (case step d ev of (r, d') \<Rightarrow> (case run d' evs of (rs, d'') \<Rightarrow> (r # rs, d'')))"

text \<open>The sessions of a name that are alive, wherever they are, as pointers.\<close>

definition aliveSessions :: "devPodManager \<Rightarrow> name \<Rightarrow> nat list" where
  "aliveSessions d n = filter (\<lambda>p. sname (pods d ! p) = n \<and> Alive (pods d ! p)) [0..<length (pods d)]"

text \<open>The session registered under a name, if it is alive.\<close>

definition registeredAlive :: "devPodManager \<Rightarrow> name \<Rightarrow> nat list" where
  "registeredAlive d n = (case devPods d n of None \<Rightarrow> [] | Some p \<Rightarrow> if Alive (pods d ! p) then [p] else [])"

subsection \<open>The restart goroutine\<close>

text \<open>
  What the goroutine meets while it runs: \<open>startResult i\<close> is what \<^verbatim>\<open>dp.Start\<close> returns
  inside the attempt number \<open>i\<close>, \<open>ctxDoneAfter i\<close> is \<^verbatim>\<open>originalContext.IsDone()\<close> after
  that attempt has failed, and \<open>during i\<close> are the events of the other goroutines while it
  sleeps after it.
\<close>

record restartEnv =
  startResult :: "nat \<Rightarrow> err option"
  ctxDoneAfter :: "nat \<Rightarrow> bool"
  during :: "nat \<Rightarrow> event list"

datatype action = CallStart name | LogInfof name err | Sleep nat

text \<open>
  The loop of lines 127 to 142, from attempt \<open>i\<close> on. It may go on for ever, so it runs on
  fuel: \<open>None\<close> is a loop that has not returned after that many attempts. A result is the
  actions taken, the seconds slept among them, and the manager it leaves.
\<close>

fun restartLoop :: "nat \<Rightarrow> restartEnv \<Rightarrow> name \<Rightarrow> nat \<Rightarrow> devPodManager \<Rightarrow> (action list \<times> devPodManager) option" where
  "restartLoop 0 env n i d = None"
| "restartLoop (Suc fuel) env n i d =
     (case Start d n (startResult env i) of
        (None, d') \<Rightarrow> Some ([CallStart n], d')
      | (Some e, d') \<Rightarrow>
          if ctxDoneAfter env i then Some ([CallStart n], d')
          else if e = DevPodAlreadyExists then Some ([CallStart n], d')
          else
            (case restartLoop fuel env n (Suc i) (snd (run d' (during env i))) of
               None \<Rightarrow> None
             | Some (acts, d'') \<Rightarrow> Some (CallStart n # LogInfof n e # Sleep 10 # acts, d'')))"

text \<open>
  The goroutine of lines 118 to 144, once \<^verbatim>\<open><-dp.Done()\<close> has returned: \<open>ctxDone\<close> is
  \<^verbatim>\<open>originalContext.IsDone()\<close> at that moment and \<open>dpErr\<close> is \<^verbatim>\<open>dp.Err()\<close>.
\<close>

definition restartWatcher ::
  "nat \<Rightarrow> restartEnv \<Rightarrow> name \<Rightarrow> bool \<Rightarrow> err option \<Rightarrow> devPodManager \<Rightarrow> (action list \<times> devPodManager) option" where
  "restartWatcher fuel env n ctxDone dpErr d =
     (if ctxDone then Some ([], d)
      else if dpErr = Some DevPodLostConnection then restartLoop fuel env n 0 d
      else Some ([], d))"

text \<open>The manager before attempt \<open>i\<close> of the loop, and what that attempt returns.\<close>

fun managerBefore :: "restartEnv \<Rightarrow> name \<Rightarrow> devPodManager \<Rightarrow> nat \<Rightarrow> devPodManager" where
  "managerBefore env n d 0 = d"
| "managerBefore env n d (Suc i) =
     snd (run (snd (Start (managerBefore env n d i) n (startResult env i))) (during env i))"

definition attemptResult :: "restartEnv \<Rightarrow> name \<Rightarrow> devPodManager \<Rightarrow> nat \<Rightarrow> err option" where
  "attemptResult env n d i = fst (Start (managerBefore env n d i) n (startResult env i))"

text \<open>Attempt \<open>i\<close> ends the loop: it succeeded, or the context is cancelled, or it met the conflict.\<close>

definition endsLoop :: "restartEnv \<Rightarrow> name \<Rightarrow> devPodManager \<Rightarrow> nat \<Rightarrow> bool" where
  "endsLoop env n d i =
     (attemptResult env n d i = None \<or> ctxDoneAfter env i \<or> attemptResult env n d i = Some DevPodAlreadyExists)"

text \<open>The actions of \<open>k\<close> failed attempts that did not end the loop, from attempt \<open>i\<close> on.\<close>

fun failedRounds :: "restartEnv \<Rightarrow> name \<Rightarrow> devPodManager \<Rightarrow> nat \<Rightarrow> nat \<Rightarrow> action list" where
  "failedRounds env n d i 0 = []"
| "failedRounds env n d i (Suc k) =
     (case attemptResult env n d i of
        None \<Rightarrow> []
      | Some e \<Rightarrow> CallStart n # LogInfof n e # Sleep 10 # failedRounds env n d (Suc i) k)"

fun sleptSeconds :: "action list \<Rightarrow> nat" where
  "sleptSeconds [] = 0"
| "sleptSeconds (Sleep s # acts) = s + sleptSeconds acts"
| "sleptSeconds (a # acts) = sleptSeconds acts"


section \<open>Port forwarding (package portforwarding)\<close>

text \<open>
  Errors as values: an error made from a text (\<^verbatim>\<open>errors.Errorf\<close>, \<^verbatim>\<open>fmt.Errorf\<close>, or the
  error of a collaborator), and \<^verbatim>\<open>errors.Wrap(err, message)\<close>.
\<close>

datatype perror = ErrorMsg string | Wrapped perror string

fun errorText :: "perror \<Rightarrow> string" where
  "errorText (ErrorMsg m) = m"
| "errorText (Wrapped e m) = m @ '': '' @ errorText e"

text \<open>
  \<^verbatim>\<open>latest.PortMapping\<close> as the code reads it: \<^verbatim>\<open>LocalPort\<close> and \<^verbatim>\<open>RemotePort\<close> are
  pointers to \<^verbatim>\<open>int\<close> (\<open>None\<close> is nil), \<^verbatim>\<open>BindAddress\<close> is a string.
\<close>

record PortMapping =
  LocalPort :: "int option"
  RemotePort :: "int option"
  BindAddress :: string

text \<open>\<^verbatim>\<open>strconv.Itoa\<close>: the decimal digits of an integer, with a minus sign when negative.\<close>

definition digitChar :: "nat \<Rightarrow> char" where
  "digitChar d = ''0123456789'' ! d"

function decimal :: "nat \<Rightarrow> string" where
  "decimal n = (if n < 10 then [digitChar n] else decimal (n div 10) @ [digitChar (n mod 10)])"
  by pat_completeness auto
termination
  by (relation "measure id") auto

declare decimal.simps [simp del]

definition Itoa :: "int \<Rightarrow> string" where
  "Itoa i = (if i < 0 then CHR ''-'' # decimal (nat (- i)) else decimal (nat i))"

text \<open>\<^verbatim>\<open>strings.Join(elems, sep)\<close>.\<close>

fun Join :: "string list \<Rightarrow> string \<Rightarrow> string" where
  "Join [] sep = []"
| "Join [x] sep = x"
| "Join (x # y # ys) sep = x @ sep @ Join (y # ys) sep"

text \<open>Of the selected pod the code reads the namespace and the name.\<close>

record Pod =
  PodNamespace :: string
  PodName :: string

text \<open>
  What a run does that can be seen from outside, in order: lines logged on the context's
  logger and on the file logger (both are interfaces here; the event is the formatted text), the forwarder built and started, the
  watcher put on the task tree with \<^verbatim>\<open>parent.Go\<close>, the forwarder closed, hooks run with
  \<^verbatim>\<open>hook.LogExecuteHooks\<close> (the event, the name, the error handed over), \<^verbatim>\<open>parent.Kill(nil)\<close>,
  and a timer of \<^verbatim>\<open>time.After\<close> that has fired after so many seconds.
\<close>

datatype pf_event =
    LogWarnf string
  | LogDonef string
  | NewPortForwarder Pod "string list" "string list"
  | ForwardPorts
  | GoWatcher
  | PfClose
  | LogExecuteHooks string string "perror option"
  | FileErrorf string
  | PrintPodError
  | Kill
  | FileDone string
  | After nat

text \<open>
  The loop over the port mappings (lines 125 to 147), from index \<open>index\<close> on. \<open>check\<close> is
  \<^verbatim>\<open>port.Check\<close>: whether the local port looks open. The result is the warnings logged and
  either the error or the port pairs and the addresses.
\<close>

fun portLoop :: "(int \<Rightarrow> bool) \<Rightarrow> nat \<Rightarrow> PortMapping list \<Rightarrow> pf_event list \<times> (perror + string list \<times> string list)" where
  "portLoop check index [] = ([], Inr ([], []))"
| "portLoop check index (v # rest) =
     (case LocalPort v of
        None \<Rightarrow> ([], Inl (ErrorMsg (''port is not defined in portmapping '' @ Itoa (int index))))
      | Some lp \<Rightarrow>
          (let localPort = Itoa lp;
               remotePort = (case RemotePort v of None \<Rightarrow> localPort | Some rp \<Rightarrow> Itoa rp);
               warn = (if check lp then []
                       else [LogWarnf (''Seems like port '' @ Itoa lp @
                               '' is already in use. Is another application using that port?'')]);
               address = (if BindAddress v = [] then ''localhost'' else BindAddress v)
           in (case portLoop check (Suc index) rest of
                 (log, Inl e) \<Rightarrow> (warn @ log, Inl e)
               | (log, Inr (ports, addresses)) \<Rightarrow>
                   (warn @ log, Inr ((localPort @ '':'' @ remotePort) # ports, address # addresses)))))"

text \<open>
  One mapping in the words of the spec: the pair is the local port and the remote port,
  which is the local port when unset; the address is \<^verbatim>\<open>localhost\<close> when unset; a local
  port that does not look open gives a warning.
\<close>

definition portPair :: "PortMapping \<Rightarrow> string" where
  "portPair v = (case LocalPort v of None \<Rightarrow> []
     | Some lp \<Rightarrow> Itoa lp @ '':'' @ Itoa (case RemotePort v of None \<Rightarrow> lp | Some rp \<Rightarrow> rp))"

definition portAddress :: "PortMapping \<Rightarrow> string" where
  "portAddress v = (if BindAddress v = [] then ''localhost'' else BindAddress v)"

definition portWarning :: "(int \<Rightarrow> bool) \<Rightarrow> PortMapping \<Rightarrow> pf_event list" where
  "portWarning check v = (case LocalPort v of None \<Rightarrow> []
     | Some lp \<Rightarrow> if check lp then []
         else [LogWarnf (''Seems like port '' @ Itoa lp @
                 '' is already in use. Is another application using that port?'')])"

text \<open>
  Which case of the \<^verbatim>\<open>select\<close> of lines 164 to 173 is taken: the context is done, the
  forwarder is ready, it sent an error, or the timer of 20 seconds fired.
\<close>

datatype raceOutcome = CtxDone | Ready | ErrorSignal perror | Timeout

text \<open>
  What one call of \<^verbatim>\<open>startForwarding\<close> meets: \<^verbatim>\<open>ctx.IsDone()\<close> at its start, what
  \<^verbatim>\<open>SelectSinglePod\<close> returns (an error, or a pod that may be nil), \<^verbatim>\<open>port.Check\<close>, the
  error of \<^verbatim>\<open>NewPortForwarder\<close> if any, and the case the \<^verbatim>\<open>select\<close> takes.
\<close>

record sfEnv =
  ctxIsDone :: bool
  selectSinglePod :: "perror + Pod option"
  portCheck :: "int \<Rightarrow> bool"
  newPortForwarder :: "perror option"
  race :: raceOutcome

text \<open>
  \<^verbatim>\<open>startForwarding\<close>: the error it returns (\<open>None\<close> is nil) and what it did. The watcher
  that it puts on the task tree after a ready forwarder is \<open>watcher\<close> below.
\<close>

definition startForwarding :: "sfEnv \<Rightarrow> string \<Rightarrow> PortMapping list \<Rightarrow> perror option \<times> pf_event list" where
  "startForwarding env name portMappings =
     (if ctxIsDone env then (None, [])
      else
        (case selectSinglePod env of
           Inl err \<Rightarrow> (Some (Wrapped err ''error selecting pod''), [])
         | Inr None \<Rightarrow> (None, [])
         | Inr (Some pod) \<Rightarrow>
             (case portLoop (portCheck env) 0 portMappings of
                (log, Inl e) \<Rightarrow> (Some e, log)
              | (log, Inr (ports, addresses)) \<Rightarrow>
                  (case newPortForwarder env of
                     Some err \<Rightarrow>
                       (Some (ErrorMsg (''Error starting port forwarding: '' @ errorText err)), log)
                   | None \<Rightarrow>
                       (let log1 = log @ [NewPortForwarder pod ports addresses, ForwardPorts] in
                        (case race env of
                           CtxDone \<Rightarrow> (None, log1)
                         | Ready \<Rightarrow>
                             (None, log1 @
                                [LogDonef (''Port forwarding started on '' @ Join ports '', '' @ '' ('' @
                                          PodNamespace pod @ ''/'' @ PodName pod @ '')''),
                                 GoWatcher])
                         | ErrorSignal err \<Rightarrow> (Some (Wrapped err ''forward ports''), log1)
                         | Timeout \<Rightarrow>
                             (Some (ErrorMsg ''Timeout waiting for port forwarding to start''),
                              log1 @ [After 20])))))))"

definition stopPortForwarding :: "string \<Rightarrow> pf_event list" where
  "stopPortForwarding name =
     [LogExecuteHooks ''stop:portForwarding'' name None, Kill, FileDone ''Stopped port forwarding'']"

text \<open>
  What the watcher meets: the case its \<^verbatim>\<open>select\<close> takes (the context is done, or a value
  arrives on the error channel, which may be nil), what attempt \<open>i\<close> of the loop meets, and
  whether the context is done before the 15 seconds after attempt \<open>i\<close> are over.
\<close>

datatype watchOutcome = WatchCtxDone | WatchError "perror option"

record watchEnv =
  watched :: watchOutcome
  attempt :: "nat \<Rightarrow> sfEnv"
  waitCancelled :: "nat \<Rightarrow> bool"

text \<open>What the watcher does after a failed attempt, before it waits.\<close>

definition afterFailure :: "string \<Rightarrow> perror \<Rightarrow> pf_event list" where
  "afterFailure name err =
     [LogExecuteHooks ''restart:portForwarding'' name (Some err),
      FileErrorf (''Error restarting port-forwarding: '' @ errorText err),
      FileErrorf ''Will try again in 15 seconds'']"

text \<open>
  The loop of lines 191 to 211, from attempt \<open>i\<close> on. It may go on for ever, so it runs on
  fuel: \<open>None\<close> is a loop that has not ended after that many attempts.
\<close>

fun retryLoop :: "nat \<Rightarrow> watchEnv \<Rightarrow> string \<Rightarrow> PortMapping list \<Rightarrow> nat \<Rightarrow> pf_event list option" where
  "retryLoop 0 env name portMappings i = None"
| "retryLoop (Suc fuel) env name portMappings i =
     (case startForwarding (attempt env i) name portMappings of
        (None, log) \<Rightarrow> Some log
      | (Some err, log) \<Rightarrow>
          if waitCancelled env i then Some (log @ afterFailure name err @ stopPortForwarding name)
          else
            (case retryLoop fuel env name portMappings (Suc i) of
               None \<Rightarrow> None
             | Some rest \<Rightarrow> Some (log @ afterFailure name err @ [After 15] @ rest)))"

text \<open>
  The watcher of lines 175 to 215: what it did and the error it returns, which is nil on
  every path; \<open>None\<close> when it has not returned.
\<close>

definition watcher :: "nat \<Rightarrow> watchEnv \<Rightarrow> string \<Rightarrow> PortMapping list \<Rightarrow> (perror option \<times> pf_event list) option" where
  "watcher fuel env name portMappings =
     (case watched env of
        WatchCtxDone \<Rightarrow> Some (None, PfClose # stopPortForwarding name)
      | WatchError None \<Rightarrow> Some (None, [])
      | WatchError (Some err) \<Rightarrow>
          (case retryLoop fuel env name portMappings 0 of
             None \<Rightarrow> None
           | Some rest \<Rightarrow>
               Some (None,
                 [FileErrorf (''Portforwarding restarting, because: '' @ errorText err),
                  PrintPodError, PfClose,
                  LogExecuteHooks ''restart:portForwarding'' name (Some err)] @ rest)))"

text \<open>Attempt \<open>i\<close> ends the loop: it returned no error, or the wait after it is cancelled.\<close>

definition endsRetry :: "watchEnv \<Rightarrow> string \<Rightarrow> PortMapping list \<Rightarrow> nat \<Rightarrow> bool" where
  "endsRetry env name portMappings i =
     (fst (startForwarding (attempt env i) name portMappings) = None \<or> waitCancelled env i)"

text \<open>What \<open>k\<close> attempts that failed and waited their 15 seconds did, from attempt \<open>i\<close> on.\<close>

fun retryRounds :: "watchEnv \<Rightarrow> string \<Rightarrow> PortMapping list \<Rightarrow> nat \<Rightarrow> nat \<Rightarrow> pf_event list" where
  "retryRounds env name portMappings i 0 = []"
| "retryRounds env name portMappings i (Suc k) =
     (case startForwarding (attempt env i) name portMappings of
        (None, log) \<Rightarrow> []
      | (Some err, log) \<Rightarrow>
          log @ afterFailure name err @ [After 15] @ retryRounds env name portMappings (Suc i) k)"

text \<open>What the attempt that ends the loop did.\<close>

definition lastRound :: "watchEnv \<Rightarrow> string \<Rightarrow> PortMapping list \<Rightarrow> nat \<Rightarrow> pf_event list" where
  "lastRound env name portMappings i =
     (case startForwarding (attempt env i) name portMappings of
        (None, log) \<Rightarrow> log
      | (Some err, log) \<Rightarrow> log @ afterFailure name err @ stopPortForwarding name)"

subsection \<open>Starting the sets of a dev pod\<close>

text \<open>
  Of \<^verbatim>\<open>latest.DevContainer\<close> and \<^verbatim>\<open>latest.DevPod\<close> the code reads these fields. The
  expression \<^verbatim>\<open>devPod.PortMappingsReverse\<close> reads the reverse mappings of the dev pod
  itself, those of its inline container.
\<close>

record DevContainer =
  Container :: string
  Arch :: string
  PortMappingsReverse :: "PortMapping list"

record DevPod =
  Name :: string
  Forward :: "PortMapping list"
  InlineContainer :: DevContainer
  Containers :: "DevContainer list"

text \<open>
  Modelled from the spec: \<^verbatim>\<open>loader.EachDevContainer\<close> is not among the sources. The spec has
  one reverse set per dev container; the callback is run for each container of the dev
  pod, which are the entries of \<^verbatim>\<open>Containers\<close>, or the inline container when there are none.
\<close>

definition EachDevContainer :: "DevPod \<Rightarrow> DevContainer list" where
  "EachDevContainer devPod =
     (if Containers devPod \<noteq> [] then Containers devPod else [InlineContainer devPod])"

text \<open>
  The members that \<^verbatim>\<open>StartPortForwarding\<close> puts on the task tree: the forward set with the
  name and the forward mappings, a reverse set with the name, the architecture, the
  mappings and the container the selector is narrowed to.
\<close>

datatype task =
    ForwardSet string "PortMapping list"
  | ReverseSet string string "PortMapping list" string

text \<open>
  \<^verbatim>\<open>StartPortForwarding\<close>: \<open>configSet\<close> is false when the context or its config is nil, and
  \<open>each\<close> gives the containers that \<^verbatim>\<open>loader.EachDevContainer\<close> visits. It waits for every
  member to initialise and returns nil; the errors of the members go to the task tree.
\<close>

definition StartPortForwarding :: "bool \<Rightarrow> (DevPod \<Rightarrow> DevContainer list) \<Rightarrow> DevPod \<Rightarrow> perror + task list" where
  "StartPortForwarding configSet each devPod =
     (if \<not> configSet then Inl (ErrorMsg ''DevSpace config is not set'')
      else Inr
        ((if length (Forward devPod) > 0 then [ForwardSet (Name devPod) (Forward devPod)] else []) @
         concat (map (\<lambda>devContainer.
            if length (PortMappingsReverse (InlineContainer devPod)) > 0
            then [ReverseSet (Name devPod) (Arch devContainer) (PortMappingsReverse devContainer)
                    (Container devContainer)]
            else []) (each devPod))))"

text \<open>
  What holds of every manager that the operations can reach: a registered pointer is a
  session of \<open>pods\<close> that carries the name it is registered under, and an alive session
  is the one registered under its name.
\<close>

definition wellFormed :: "devPodManager \<Rightarrow> bool" where
  "wellFormed d =
     ((\<forall>n p. devPods d n = Some p \<longrightarrow> p < length (pods d) \<and> sname (pods d ! p) = n) \<and>
      (\<forall>p < length (pods d). Alive (pods d ! p) \<longrightarrow> devPods d (sname (pods d ! p)) = Some p))"

section \<open>Properties of the prefix logger\<close>

lemma sint_negateIfNegative:
  assumes "sint (h :: 'a::len word) \<noteq> - (2 ^ (LENGTH('a) - 1))"
  shows "sint (negateIfNegative h) = \<bar>sint h\<bar>"
proof (cases "sint h < 0")
  case True
  have lo: "- (2 ^ (LENGTH('a) - 1)) \<le> sint h" by (rule sint_ge)
  have "sint (h * (- 1)) = sint (- h)" by simp
  also have "\<dots> = signed_take_bit (LENGTH('a) - 1) (- sint h)" by (rule sint_word_minus)
  also have "\<dots> = - sint h"
    using assms lo True by (intro signed_take_bit_int_eq_self) auto
  finally show ?thesis using True by (simp add: negateIfNegative_def)
next
  case False
  then show ?thesis by (simp add: negateIfNegative_def)
qed

text \<open>
  Away from the least value of \<^verbatim>\<open>int\<close> the guard does its work: the index is one of the
  six of the palette.
\<close>

lemma colorIndex_in_range:
  assumes "sint (h :: 'a::len word) \<noteq> - (2 ^ (LENGTH('a) - 1))"
  shows "0 \<le> colorIndex h \<and> colorIndex h < 6"
  using sint_negateIfNegative [OF assms]
  by (simp add: colorIndex_def go_rem_def Colors_def sgn_if)

lemma writeMessage_held_returns:
  assumes "timestamps e \<or> level_num (level s) < level_num lv"
  shows "\<exists>q. writeMessage e s lv m p = Some q \<and> exited q = exited p"
proof (cases "level_num lv \<le> level_num (level s)")
  case False
  then show ?thesis by (simp add: writeMessage_def)
next
  case True
  with assms have "timestamps e" by simp
  then show ?thesis
    using True by (simp add: writeMessage_def withTimestamp_def base_WriteString_def)
qed

lemma leveled_call_returns:
  assumes "\<not> locked s" and "timestamps e \<or> level_num (level s) < level_num lv"
  shows "\<exists>q. withLock e s p (\<lambda>s'. writeMessage e s' lv m p) = Some q \<and> exited q = exited p"
proof -
  have "timestamps e \<or> level_num (level (s\<lparr>locked := True\<rparr>)) < level_num lv"
    using assms(2) by simp
  then have "\<exists>q. writeMessage e (s\<lparr>locked := True\<rparr>) lv m p = Some q \<and> exited q = exited p"
    by (rule writeMessage_held_returns)
  then show ?thesis using assms(1) by (simp add: withLock_def Lock_def)
qed

lemma leveled_call_returns_running:
  assumes "\<not> locked s" and "exited p = None"
    and "timestamps e \<or> level_num (level s) < level_num lv"
  shows "\<exists>q. withLock e s p (\<lambda>s'. writeMessage e s' lv m p) = Some q \<and> exited q = None"
  using leveled_call_returns [OF assms(1,3), of p m] assms(2) by simp

lemma fatal_call_exits:
  assumes "\<not> locked s" and "exited p = None"
    and "timestamps e \<or> level_num (level s) < level_num lv"
  shows "\<exists>q. withLock e s p (\<lambda>s'. thenExit (writeMessage e s' lv m p)) = Some q \<and> exited q = Some 1"
proof -
  have "timestamps e \<or> level_num (level (s\<lparr>locked := True\<rparr>)) < level_num lv"
    using assms(3) by simp
  then obtain q where q: "writeMessage e (s\<lparr>locked := True\<rparr>) lv m p = Some q" "exited q = exited p"
    using writeMessage_held_returns by blast
  then show ?thesis
    using assms(1,2) by (simp add: withLock_def Lock_def thenExit_def os_Exit_def)
qed

text \<open>
  A leveled call takes the mutex, and \<^verbatim>\<open>writeMessage\<close> asks \<^verbatim>\<open>GetLevel\<close> for it again
  unless the environment asks for timestamps. Without them, a call whose message passes
  the level never comes back: it blocks for ever while other goroutines run, and when none
  can run the runtime ends the process with exit status 2. This holds for \<^verbatim>\<open>Info\<close> as for
  \<^verbatim>\<open>Fatal\<close>, which then never reaches its \<^verbatim>\<open>os.Exit(1)\<close>.
\<close>

lemma leveled_call_deadlocks:
  assumes "\<not> locked s" and "\<not> timestamps e" and "level_num lv \<le> level_num (level s)"
  shows "withLock e s p (\<lambda>s'. writeMessage e s' lv m p) =
     (if othersCanRun e then None else Some (deadlockExit p))"
  using assms
  by (simp add: withLock_def Lock_def writeMessage_def withTimestamp_def GetLevel_def)

lemma Info_deadlocks_without_timestamps:
  "\<not> locked s \<Longrightarrow> \<not> timestamps e \<Longrightarrow> level_num InfoLevel \<le> level_num (level s) \<Longrightarrow>
   Info e s msg p = (if othersCanRun e then None else Some (deadlockExit p))"
  unfolding Info_def by (rule leveled_call_deadlocks)

lemma Fatal_deadlocks_without_timestamps:
  assumes "\<not> locked s" and "\<not> timestamps e" and "level_num FatalLevel \<le> level_num (level s)"
  shows "Fatal e s msg p = (if othersCanRun e then None else Some (deadlockExit p))"
  using assms
  by (simp add: Fatal_def withLock_def Lock_def writeMessage_def withTimestamp_def GetLevel_def
      thenExit_def deadlockExit_def)

text \<open>
  C8, as the claim states it: no call of \<^verbatim>\<open>Fatal\<close> on the prefix logger ends the process
  inside the logging component. It fails: with timestamps on, a running process that calls
  \<^verbatim>\<open>Fatal\<close> has exited with status 1 when the call is over.
\<close>

theorem C8_Fatal_terminates_counterexample:
  "map_option exited
     (Fatal \<lparr>timestamps = True, now = (0, 0, 0), ansiColor = (\<lambda>t c. t), formatInt = (\<lambda>n. []),
             othersCanRun = True\<rparr>
        \<lparr>level = InfoLevel, prefix = ''api '', color = ''blue'', locked = False\<rparr> ''boom''
        \<lparr>written = [], exited = None\<rparr>) = Some (Some 1)"
  by (simp add: Fatal_def withLock_def Lock_def writeMessage_def withTimestamp_def thenExit_def
      os_Exit_def base_WriteString_def)

text \<open>
  C8, amended: on a prefix logger whose mutex is free, in a running process, when the
  environment asks for timestamps or the level of the logger filters the message out,
  every call of \<^verbatim>\<open>Fatal\<close> or \<^verbatim>\<open>Fatalf\<close> (and \<^verbatim>\<open>Print\<close> at the fatal level) ends the
  process with exit status 1, inside the logging component, and every other leveled call
  (\<^verbatim>\<open>Debug\<close>, \<^verbatim>\<open>Info\<close>, \<^verbatim>\<open>Warn\<close>, \<^verbatim>\<open>Error\<close>, \<^verbatim>\<open>Done\<close> and their f-forms) returns with
  the process still running.
\<close>

theorem C8_only_Fatal_terminates:
  assumes "\<not> locked s" and "exited p = None"
  shows "(timestamps e \<or> level_num (level s) < level_num FatalLevel \<longrightarrow>
            (\<exists>q. Fatal e s msg p = Some q \<and> exited q = Some 1)
          \<and> (\<exists>q. Fatalf e s msg p = Some q \<and> exited q = Some 1)
          \<and> (\<exists>q. Print e s FatalLevel msg p = Some q \<and> exited q = Some 1))
     \<and> (timestamps e \<or> level_num (level s) < level_num DebugLevel \<longrightarrow>
            (\<exists>q. Debug e s msg p = Some q \<and> exited q = None)
          \<and> (\<exists>q. Debugf e s msg p = Some q \<and> exited q = None))
     \<and> (timestamps e \<or> level_num (level s) < level_num InfoLevel \<longrightarrow>
            (\<exists>q. Info e s msg p = Some q \<and> exited q = None)
          \<and> (\<exists>q. Infof e s msg p = Some q \<and> exited q = None)
          \<and> (\<exists>q. Done e s msg p = Some q \<and> exited q = None)
          \<and> (\<exists>q. Donef e s msg p = Some q \<and> exited q = None))
     \<and> (timestamps e \<or> level_num (level s) < level_num WarnLevel \<longrightarrow>
            (\<exists>q. Warn e s msg p = Some q \<and> exited q = None)
          \<and> (\<exists>q. Warnf e s msg p = Some q \<and> exited q = None))
     \<and> (timestamps e \<or> level_num (level s) < level_num ErrorLevel \<longrightarrow>
            (\<exists>q. Error e s msg p = Some q \<and> exited q = None)
          \<and> (\<exists>q. Errorf e s msg p = Some q \<and> exited q = None))"
proof (intro conjI impI)
  assume c: "timestamps e \<or> level_num (level s) < level_num FatalLevel"
  show "\<exists>q. Fatal e s msg p = Some q \<and> exited q = Some 1"
    unfolding Fatal_def by (rule fatal_call_exits [OF assms c])
  show "\<exists>q. Fatalf e s msg p = Some q \<and> exited q = Some 1"
    unfolding Fatalf_def by (rule fatal_call_exits [OF assms c])
  show "\<exists>q. Print e s FatalLevel msg p = Some q \<and> exited q = Some 1"
    unfolding Print.simps Fatal_def by (rule fatal_call_exits [OF assms c])
next
  assume c: "timestamps e \<or> level_num (level s) < level_num DebugLevel"
  show "\<exists>q. Debug e s msg p = Some q \<and> exited q = None"
    unfolding Debug_def by (rule leveled_call_returns_running [OF assms c])
  show "\<exists>q. Debugf e s msg p = Some q \<and> exited q = None"
    unfolding Debugf_def by (rule leveled_call_returns_running [OF assms c])
next
  assume c: "timestamps e \<or> level_num (level s) < level_num InfoLevel"
  show "\<exists>q. Info e s msg p = Some q \<and> exited q = None"
    unfolding Info_def by (rule leveled_call_returns_running [OF assms c])
  show "\<exists>q. Infof e s msg p = Some q \<and> exited q = None"
    unfolding Infof_def by (rule leveled_call_returns_running [OF assms c])
  show "\<exists>q. Done e s msg p = Some q \<and> exited q = None"
    unfolding Done_def by (rule leveled_call_returns_running [OF assms c])
  show "\<exists>q. Donef e s msg p = Some q \<and> exited q = None"
    unfolding Donef_def by (rule leveled_call_returns_running [OF assms c])
next
  assume c: "timestamps e \<or> level_num (level s) < level_num WarnLevel"
  show "\<exists>q. Warn e s msg p = Some q \<and> exited q = None"
    unfolding Warn_def by (rule leveled_call_returns_running [OF assms c])
  show "\<exists>q. Warnf e s msg p = Some q \<and> exited q = None"
    unfolding Warnf_def by (rule leveled_call_returns_running [OF assms c])
next
  assume c: "timestamps e \<or> level_num (level s) < level_num ErrorLevel"
  show "\<exists>q. Error e s msg p = Some q \<and> exited q = None"
    unfolding Error_def by (rule leveled_call_returns_running [OF assms c])
  show "\<exists>q. Errorf e s msg p = Some q \<and> exited q = None"
    unfolding Errorf_def by (rule leveled_call_returns_running [OF assms c])
qed

theorem C8_only_Fatal_terminates_witness:
  "(\<exists>q. Fatal \<lparr>timestamps = True, now = (0, 0, 0), ansiColor = (\<lambda>t c. t), formatInt = (\<lambda>n. []),
                othersCanRun = True\<rparr>
        \<lparr>level = InfoLevel, prefix = ''api '', color = ''blue'', locked = False\<rparr> ''boom''
        \<lparr>written = [], exited = None\<rparr> = Some q \<and> exited q = Some 1)
   \<and> (\<exists>q. Info \<lparr>timestamps = True, now = (0, 0, 0), ansiColor = (\<lambda>t c. t), formatInt = (\<lambda>n. []),
                othersCanRun = True\<rparr>
        \<lparr>level = InfoLevel, prefix = ''api '', color = ''blue'', locked = False\<rparr> ''up''
        \<lparr>written = [], exited = None\<rparr> = Some q \<and> exited q = None)
   \<and> (\<exists>q. Debug \<lparr>timestamps = False, now = (0, 0, 0), ansiColor = (\<lambda>t c. t), formatInt = (\<lambda>n. []),
                othersCanRun = False\<rparr>
        \<lparr>level = InfoLevel, prefix = ''api '', color = ''blue'', locked = False\<rparr> ''probe''
        \<lparr>written = [], exited = None\<rparr> = Some q \<and> exited q = None)"
proof -
  let ?e = "\<lparr>timestamps = True, now = (0, 0, 0), ansiColor = (\<lambda>t c. t), formatInt = (\<lambda>n. []),
             othersCanRun = True\<rparr>"
  let ?e' = "\<lparr>timestamps = False, now = (0, 0, 0), ansiColor = (\<lambda>t c. t), formatInt = (\<lambda>n. []),
             othersCanRun = False\<rparr>"
  let ?s = "\<lparr>level = InfoLevel, prefix = ''api '', color = ''blue'', locked = False\<rparr>"
  let ?p = "\<lparr>written = [], exited = None\<rparr>"
  have l: "\<not> locked ?s" by simp
  have r: "exited ?p = None" by simp
  have t: "timestamps ?e \<or> level_num (level ?s) < level_num FatalLevel" by simp
  have t': "timestamps ?e \<or> level_num (level ?s) < level_num InfoLevel" by simp
  have d: "timestamps ?e' \<or> level_num (level ?s) < level_num DebugLevel" by simp
  have a: "\<exists>q. Fatal ?e ?s ''boom'' ?p = Some q \<and> exited q = Some 1"
    using C8_only_Fatal_terminates [OF l r, of ?e "''boom''"] t by blast
  have b: "\<exists>q. Info ?e ?s ''up'' ?p = Some q \<and> exited q = None"
    using C8_only_Fatal_terminates [OF l r, of ?e "''up''"] t' by blast
  have c: "\<exists>q. Debug ?e' ?s ''probe'' ?p = Some q \<and> exited q = None"
    using C8_only_Fatal_terminates [OF l r, of ?e' "''probe''"] d by blast
  from a b c show ?thesis by (intro conjI)
qed

text \<open>
  C10: the claim says the colour index always lies within the six entries of the palette.
  When the hash of the prefix, converted to \<^verbatim>\<open>int\<close>, is the least value of \<^verbatim>\<open>int\<close>, the
  negation wraps around to the same negative number, the remainder is \<open>-2\<close>, and indexing
  \<^verbatim>\<open>Colors\<close> panics: with a 64-bit \<^verbatim>\<open>int\<close> at \<open>-2^63\<close>, and with a 32-bit \<^verbatim>\<open>int\<close> at the
  value that the unsigned 32-bit number \<open>0x80000000\<close> converts to.
\<close>

theorem C10_least_int_index_out_of_range:
  "NewDefaultPrefixLogger (\<lambda>_. (- (2 ^ 63)) :: 64 word) ''api'' InfoLevel = Inl (IndexOutOfRange (- 2))
   \<and> NewDefaultPrefixLogger (\<lambda>_. 0x80000000 :: 32 word) ''api'' InfoLevel = Inl (IndexOutOfRange (- 2))"
  by (simp add: NewDefaultPrefixLogger_def index_slice_def colorIndex_def negateIfNegative_def
      go_rem_def Colors_def)


section \<open>Properties of the manager\<close>

lemma wellFormed_NewManager: "wellFormed NewManager"
  by (simp add: wellFormed_def NewManager_def)

lemma wellFormed_Start:
  assumes "wellFormed d"
  shows "wellFormed (snd (Start d n r))"
proof (cases "aliveRegistered (d\<lparr>loggers := loggers d @ [n]\<rparr>) n")
  case True
  then show ?thesis using assms by (simp add: Start_def wellFormed_def)
next
  case False
  have reg: "\<And>m p. devPods d m = Some p \<Longrightarrow> p < length (pods d) \<and> sname (pods d ! p) = m"
    using assms by (simp add: wellFormed_def)
  have al: "\<And>p. p < length (pods d) \<Longrightarrow> Alive (pods d ! p) \<Longrightarrow> devPods d (sname (pods d ! p)) = Some p"
    using assms by (simp add: wellFormed_def)
  have nal: "\<And>p. p < length (pods d) \<Longrightarrow> Alive (pods d ! p) \<Longrightarrow> sname (pods d ! p) \<noteq> n"
  proof
    fix p assume p: "p < length (pods d)" "Alive (pods d ! p)" "sname (pods d ! p) = n"
    then have "devPods d n = Some p" using al [of p] by simp
    with p False show False by (simp add: aliveRegistered_def)
  qed
  let ?d' = "snd (Start d n r)"
  have pods': "pods ?d' = pods d @ [devPod_Start n newDevPod]"
    using False by (simp add: Start_def Let_def)
  have reg': "devPods ?d' = (devPods d)(n \<mapsto> length (pods d))"
    using False by (simp add: Start_def Let_def)
  show ?thesis
    unfolding wellFormed_def pods' reg'
  proof (intro conjI allI impI)
    fix m p assume "((devPods d)(n \<mapsto> length (pods d))) m = Some p"
    then show "p < length (pods d @ [devPod_Start n newDevPod])"
      using reg by (auto split: if_splits simp: less_Suc_eq)
  next
    fix m p assume "((devPods d)(n \<mapsto> length (pods d))) m = Some p"
    then show "sname ((pods d @ [devPod_Start n newDevPod]) ! p) = m"
      using reg by (auto split: if_splits simp: nth_append devPod_Start_def)
  next
    fix p assume "p < length (pods d @ [devPod_Start n newDevPod])"
      and "Alive ((pods d @ [devPod_Start n newDevPod]) ! p)"
    then consider "p = length (pods d)" | "p < length (pods d)" "Alive (pods d ! p)"
      by (auto simp: nth_append less_Suc_eq)
    then show "((devPods d)(n \<mapsto> length (pods d))) (sname ((pods d @ [devPod_Start n newDevPod]) ! p)) = Some p"
    proof cases
      case 1
      then show ?thesis by (simp add: devPod_Start_def)
    next
      case 2
      then show ?thesis using al [OF 2] nal [OF 2] by (simp add: nth_append)
    qed
  qed
qed

lemma wellFormed_stop:
  assumes "wellFormed d"
  shows "wellFormed (stop d n)"
proof (cases "devPods d n")
  case None
  then show ?thesis using assms by (simp add: stop_def)
next
  case (Some p)
  have reg: "\<And>m q. devPods d m = Some q \<Longrightarrow> q < length (pods d) \<and> sname (pods d ! q) = m"
    using assms by (simp add: wellFormed_def)
  have al: "\<And>q. q < length (pods d) \<Longrightarrow> Alive (pods d ! q) \<Longrightarrow> devPods d (sname (pods d ! q)) = Some q"
    using assms by (simp add: wellFormed_def)
  have p: "p < length (pods d)" "sname (pods d ! p) = n" using reg [OF Some] by auto
  have st: "stop d n = d\<lparr>pods := (pods d)[p := devPod_Stop (pods d ! p)], devPods := (devPods d)(n := None)\<rparr>"
    using Some by (simp add: stop_def)
  show ?thesis
    unfolding wellFormed_def st
  proof (intro conjI allI impI)
    fix m q assume a: "devPods (d\<lparr>pods := (pods d)[p := devPod_Stop (pods d ! p)], devPods := (devPods d)(n := None)\<rparr>) m = Some q"
    then have mq: "m \<noteq> n" "devPods d m = Some q" by (auto split: if_splits)
    then show "q < length (pods (d\<lparr>pods := (pods d)[p := devPod_Stop (pods d ! p)], devPods := (devPods d)(n := None)\<rparr>))"
      using reg by simp
    have "q \<noteq> p" using mq reg p by auto
    then show "sname (pods (d\<lparr>pods := (pods d)[p := devPod_Stop (pods d ! p)], devPods := (devPods d)(n := None)\<rparr>) ! q) = m"
      using reg mq by simp
  next
    fix q assume a: "q < length (pods (d\<lparr>pods := (pods d)[p := devPod_Stop (pods d ! p)], devPods := (devPods d)(n := None)\<rparr>))"
      "Alive (pods (d\<lparr>pods := (pods d)[p := devPod_Stop (pods d ! p)], devPods := (devPods d)(n := None)\<rparr>) ! q)"
    then have qp: "q \<noteq> p" using p by (auto simp: Alive_def devPod_Stop_def)
    with a have q: "q < length (pods d)" "Alive (pods d ! q)" by auto
    then have r: "devPods d (sname (pods d ! q)) = Some q" by (rule al)
    then have "sname (pods d ! q) \<noteq> n" using Some qp by auto
    then show "devPods (d\<lparr>pods := (pods d)[p := devPod_Stop (pods d ! p)], devPods := (devPods d)(n := None)\<rparr>)
       (sname (pods (d\<lparr>pods := (pods d)[p := devPod_Stop (pods d ! p)], devPods := (devPods d)(n := None)\<rparr>) ! q)) = Some q"
      using r qp by simp
  qed
qed

lemma wellFormed_finish:
  assumes "wellFormed d"
  shows "wellFormed (snd (step d (EFinish p e)))"
proof (cases "p < length (pods d)")
  case False
  then show ?thesis using assms by simp
next
  case True
  have sn: "sname (devPod_finish e (pods d ! p)) = sname (pods d ! p)"
    by (simp add: devPod_finish_def)
  have alv: "Alive (devPod_finish e (pods d ! p)) \<Longrightarrow> Alive (pods d ! p)"
    by (simp add: devPod_finish_def Alive_def split: if_splits)
  have st: "snd (step d (EFinish p e)) = d\<lparr>pods := (pods d)[p := devPod_finish e (pods d ! p)]\<rparr>"
    using True by simp
  have reg: "\<And>m q. devPods d m = Some q \<Longrightarrow> q < length (pods d) \<and> sname (pods d ! q) = m"
    using assms by (simp add: wellFormed_def)
  have al: "\<And>q. q < length (pods d) \<Longrightarrow> Alive (pods d ! q) \<Longrightarrow> devPods d (sname (pods d ! q)) = Some q"
    using assms by (simp add: wellFormed_def)
  show ?thesis
    unfolding wellFormed_def st
  proof (intro conjI allI impI)
    fix m q assume "devPods (d\<lparr>pods := (pods d)[p := devPod_finish e (pods d ! p)]\<rparr>) m = Some q"
    then have mq: "devPods d m = Some q" by simp
    show "q < length (pods (d\<lparr>pods := (pods d)[p := devPod_finish e (pods d ! p)]\<rparr>))"
      using reg [OF mq] by simp
    show "sname (pods (d\<lparr>pods := (pods d)[p := devPod_finish e (pods d ! p)]\<rparr>) ! q) = m"
      using reg [OF mq] sn by (cases "q = p") simp_all
  next
    fix q assume a: "q < length (pods (d\<lparr>pods := (pods d)[p := devPod_finish e (pods d ! p)]\<rparr>))"
      "Alive (pods (d\<lparr>pods := (pods d)[p := devPod_finish e (pods d ! p)]\<rparr>) ! q)"
    then have q: "q < length (pods d)" "Alive (pods d ! q)"
      using alv by (cases "q = p"; simp)+
    have "sname (pods (d\<lparr>pods := (pods d)[p := devPod_finish e (pods d ! p)]\<rparr>) ! q) = sname (pods d ! q)"
      using q sn by (cases "q = p") simp_all
    then show "devPods (d\<lparr>pods := (pods d)[p := devPod_finish e (pods d ! p)]\<rparr>)
       (sname (pods (d\<lparr>pods := (pods d)[p := devPod_finish e (pods d ! p)]\<rparr>) ! q)) = Some q"
      using al [OF q] by simp
  qed
qed

lemma wellFormed_step: "wellFormed d \<Longrightarrow> wellFormed (snd (step d ev))"
proof (cases ev)
  case (EStart n r)
  assume "wellFormed d" then show ?thesis using EStart by (simp add: wellFormed_Start)
next
  case (EStop n)
  assume "wellFormed d" then show ?thesis using EStop by (simp add: Stop_def wellFormed_stop)
next
  case (EReset n r)
  assume "wellFormed d" then show ?thesis using EReset by (simp add: Reset_def wellFormed_stop split: option.splits)
next
  case (EFinish p e)
  assume "wellFormed d" then show ?thesis using EFinish wellFormed_finish by simp
qed

lemma wellFormed_run: "wellFormed d \<Longrightarrow> wellFormed (snd (run d evs))"
proof (induction evs arbitrary: d)
  case Nil
  then show ?case by simp
next
  case (Cons ev evs)
  from Cons.prems have "wellFormed (snd (step d ev))" by (rule wellFormed_step)
  then have "wellFormed (snd (run (snd (step d ev)) evs))" by (rule Cons.IH)
  then show ?case by (cases "step d ev"; cases "run (snd (step d ev)) evs") simp
qed

lemma filter_upt_single:
  assumes "p < k" "P p" "\<And>q. q < k \<Longrightarrow> P q \<Longrightarrow> q = p"
  shows "filter P [0..<k] = [p]"
proof -
  have "filter P [0..<k] = filter (\<lambda>q. q = p) [0..<k]"
  proof (rule filter_cong [OF refl])
    fix q assume "q \<in> set [0..<k]"
    then have "q < k" by simp
    then show "P q = (q = p)" using assms(2) assms(3) [of q] by blast
  qed
  also have "\<dots> = [p]"
    using assms(1)
  proof (induction k)
    case 0 then show ?case by simp
  next
    case (Suc k)
    then show ?case by (cases "p = k") (auto simp: less_Suc_eq filter_empty_conv)
  qed
  finally show ?thesis .
qed

lemma wellFormed_aliveSessions:
  assumes "wellFormed d"
  shows "aliveSessions d n = registeredAlive d n"
proof -
  have reg: "\<And>m q. devPods d m = Some q \<Longrightarrow> q < length (pods d) \<and> sname (pods d ! q) = m"
    using assms by (simp add: wellFormed_def)
  have al: "\<And>q. q < length (pods d) \<Longrightarrow> Alive (pods d ! q) \<Longrightarrow> devPods d (sname (pods d ! q)) = Some q"
    using assms by (simp add: wellFormed_def)
  show ?thesis
  proof (cases "registeredAlive d n")
    case Nil
    have "\<And>q. q < length (pods d) \<Longrightarrow> \<not> (sname (pods d ! q) = n \<and> Alive (pods d ! q))"
    proof
      fix q assume "q < length (pods d)" "sname (pods d ! q) = n \<and> Alive (pods d ! q)"
      then have "devPods d n = Some q" "Alive (pods d ! q)" using al [of q] by simp_all
      with Nil show False by (simp add: registeredAlive_def)
    qed
    then have "aliveSessions d n = []"
      by (auto simp: aliveSessions_def filter_empty_conv)
    with Nil show ?thesis by simp
  next
    case (Cons p ps)
    then have p: "devPods d n = Some p" "Alive (pods d ! p)" "ps = []"
      by (auto simp: registeredAlive_def split: option.splits if_splits)
    have "aliveSessions d n = [p]"
      unfolding aliveSessions_def
    proof (rule filter_upt_single)
      show "p < length (pods d)" using reg p by auto
      show "sname (pods d ! p) = n \<and> Alive (pods d ! p)" using reg p by auto
      fix q assume "q < length (pods d)" "sname (pods d ! q) = n \<and> Alive (pods d ! q)"
      then have "devPods d n = Some q" using al [of q] by simp
      with p show "q = p" by simp
    qed
    with Cons p show ?thesis by simp
  qed
qed

lemma aliveRegistered_loggers [simp]: "aliveRegistered (d\<lparr>loggers := l\<rparr>) n = aliveRegistered d n"
  by (simp add: aliveRegistered_def split: option.splits)

lemma Start_unfold:
  "Start d n r =
     (if aliveRegistered d n then (Some DevPodAlreadyExists, d\<lparr>loggers := loggers d @ [n]\<rparr>)
      else (r, d\<lparr>loggers := loggers d @ [n], pods := pods d @ [devPod_Start n newDevPod],
                 devPods := (devPods d)(n \<mapsto> length (pods d))\<rparr>))"
  by (simp add: Start_def Let_def)

lemma Start_conflict:
  "aliveRegistered d n \<Longrightarrow> Start d n r = (Some DevPodAlreadyExists, d\<lparr>loggers := loggers d @ [n]\<rparr>)"
  by (simp add: Start_unfold)

lemma Start_fresh_result: "\<not> aliveRegistered d n \<Longrightarrow> fst (Start d n r) = r"
  by (simp add: Start_unfold)

lemma Start_aliveRegistered: "aliveRegistered (snd (Start d n r)) n"
proof (cases "aliveRegistered d n")
  case True
  then show ?thesis by (simp add: Start_unfold)
next
  case False
  then show ?thesis
    by (simp add: Start_unfold) (simp add: aliveRegistered_def Alive_def devPod_Start_def newDevPod_def)
qed

lemma run_Starts_conflict:
  "aliveRegistered d n \<Longrightarrow>
   fst (run d (replicate k (EStart n r))) = replicate k (Some DevPodAlreadyExists)"
proof (induction k arbitrary: d)
  case 0
  then show ?case by simp
next
  case (Suc k)
  have al: "aliveRegistered (snd (Start d n r)) n" by (rule Start_aliveRegistered)
  have "fst (Start d n r) = Some DevPodAlreadyExists"
    using Suc.prems by (simp add: Start_conflict)
  then show ?case
    using Suc.IH [OF al] by (simp add: case_prod_unfold)
qed

lemma run_Starts:
  "fst (run d (replicate (Suc k) (EStart n None))) =
     (if aliveRegistered d n then Some DevPodAlreadyExists else None) # replicate k (Some DevPodAlreadyExists)"
proof -
  have al: "aliveRegistered (snd (Start d n None)) n" by (rule Start_aliveRegistered)
  have hd: "fst (Start d n None) = (if aliveRegistered d n then Some DevPodAlreadyExists else None)"
    by (simp add: Start_conflict Start_fresh_result)
  show ?thesis
    using run_Starts_conflict [OF al, of k None] hd by (simp add: case_prod_unfold)
qed

text \<open>
  C2: a call of \<^verbatim>\<open>Start\<close> for a name under which an alive session is registered returns
  \<^verbatim>\<open>DevPodAlreadyExists\<close> and leaves the registry and the sessions as they were: no session
  is created and the entry of the name is unchanged.
\<close>

theorem C2_Start_conflict_no_side_effect:
  assumes "devPods d n = Some p" and "Alive (pods d ! p)"
  shows "fst (Start d n r) = Some DevPodAlreadyExists
     \<and> devPods (snd (Start d n r)) = devPods d \<and> pods (snd (Start d n r)) = pods d"
proof -
  have "aliveRegistered d n" using assms by (simp add: aliveRegistered_def)
  then show ?thesis by (simp add: Start_unfold)
qed

theorem C2_Start_conflict_witness:
  "fst (Start (snd (Start NewManager ''api'' None)) ''api'' None) = Some DevPodAlreadyExists
   \<and> devPods (snd (Start (snd (Start NewManager ''api'' None)) ''api'' None)) ''api'' = Some 0
   \<and> length (pods (snd (Start (snd (Start NewManager ''api'' None)) ''api'' None))) = 1"
proof -
  let ?d = "snd (Start NewManager ''api'' None)"
  have r: "devPods ?d ''api'' = Some 0"
    by (simp add: Start_unfold aliveRegistered_def NewManager_def)
  have p: "pods ?d = [devPod_Start ''api'' newDevPod]"
    by (simp add: Start_unfold aliveRegistered_def NewManager_def)
  have a: "Alive (pods ?d ! 0)"
    by (simp add: p Alive_def devPod_Start_def newDevPod_def)
  show ?thesis using C2_Start_conflict_no_side_effect [OF r a, of None] r p by simp
qed

text \<open>
  C9: \<^verbatim>\<open>Stop\<close> is idempotent. When no session is registered under the name it changes
  nothing; two calls in a row leave the manager that one call leaves; and after a call the
  registry does not contain the name.
\<close>

theorem C9_Stop_idempotent:
  "(devPods d n = None \<longrightarrow> Stop d n = d)
   \<and> Stop (Stop d n) n = Stop d n
   \<and> devPods (Stop d n) n = None"
  by (simp add: Stop_def stop_def split: option.splits)

theorem C9_Stop_idempotent_witness:
  "Stop NewManager ''api'' = NewManager
   \<and> Stop (Stop (snd (Start NewManager ''api'' None)) ''api'') ''api'' = Stop (snd (Start NewManager ''api'' None)) ''api''
   \<and> devPods (Stop (snd (Start NewManager ''api'' None)) ''api'') ''api'' = None"
proof -
  have "devPods NewManager ''api'' = None" by (simp add: NewManager_def)
  then show ?thesis
    using C9_Stop_idempotent [of NewManager "''api''"] C9_Stop_idempotent [of "snd (Start NewManager ''api'' None)" "''api''"] by simp
qed


subsection \<open>One alive session for a name\<close>

text \<open>
  C1, as the claim states it: of the \<^verbatim>\<open>Start\<close> calls for one name that run together,
  exactly one succeeds and all the others receive the conflict. The per-name lock puts the
  calls in some order. When the own start of the first session fails, that call returns
  the error of the session, which is neither success nor the conflict: if the session is
  still alive the second call meets the conflict and no call succeeds, and if the session
  has ended in between the second call succeeds and no call meets the conflict.
\<close>

theorem C1_failed_session_start_counterexample:
  "fst (run NewManager [EStart ''api'' (Some (OtherErr ''no pod'')), EStart ''api'' None])
     = [Some (OtherErr ''no pod''), Some DevPodAlreadyExists]
   \<and> fst (run NewManager [EStart ''api'' (Some (OtherErr ''no pod'')), EFinish 0 (Some (OtherErr ''no pod'')), EStart ''api'' None])
     = [Some (OtherErr ''no pod''), None, None]"
  by (simp add: Start_unfold aliveRegistered_def NewManager_def newDevPod_def devPod_Start_def
      Alive_def devPod_finish_def)

text \<open>
  C1, amended: in every state that \<^verbatim>\<open>Start\<close>, \<^verbatim>\<open>Stop\<close>, \<^verbatim>\<open>Reset\<close> and sessions ending by
  themselves can reach from a new manager, the alive sessions of a name are at most one,
  and it is the session registered under the name. When \<^verbatim>\<open>Start\<close> calls for one name run
  together (the per-name lock puts them in an order), the own start of each session
  succeeds and the session stays alive meanwhile, then the first call succeeds and every
  other call receives \<^verbatim>\<open>DevPodAlreadyExists\<close>; if an alive session was registered before,
  the first call receives it too. In every such state a call of \<^verbatim>\<open>Start\<close> returns
  \<^verbatim>\<open>DevPodAlreadyExists\<close> when an alive session is registered under the name, and otherwise
  what the start of the new session returns: a call whose session start fails returns
  that error.
\<close>

theorem C1_one_alive_session_per_name:
  "aliveSessions (snd (run NewManager evs)) n = registeredAlive (snd (run NewManager evs)) n
   \<and> length (aliveSessions (snd (run NewManager evs)) n) \<le> 1
   \<and> fst (run (snd (run NewManager evs)) (replicate (Suc k) (EStart n None))) =
       (if aliveRegistered (snd (run NewManager evs)) n then Some DevPodAlreadyExists else None)
         # replicate k (Some DevPodAlreadyExists)
   \<and> fst (Start (snd (run NewManager evs)) n r) =
       (if aliveRegistered (snd (run NewManager evs)) n then Some DevPodAlreadyExists else r)"
proof -
  have st: "fst (Start (snd (run NewManager evs)) n r) =
       (if aliveRegistered (snd (run NewManager evs)) n then Some DevPodAlreadyExists else r)"
    by (simp add: Start_conflict Start_fresh_result)
  have wf: "wellFormed (snd (run NewManager evs))"
    by (rule wellFormed_run [OF wellFormed_NewManager])
  have eq: "aliveSessions (snd (run NewManager evs)) n = registeredAlive (snd (run NewManager evs)) n"
    by (rule wellFormed_aliveSessions [OF wf])
  moreover have "length (registeredAlive (snd (run NewManager evs)) n) \<le> 1"
    by (simp add: registeredAlive_def split: option.splits)
  ultimately show ?thesis using run_Starts [of "snd (run NewManager evs)" k n] st by simp
qed

theorem C1_one_alive_session_witness:
  "aliveSessions (snd (run NewManager [EStart ''api'' None, EFinish 0 (Some DevPodLostConnection), EStart ''api'' None])) ''api'' = [1]
   \<and> fst (run (snd (run NewManager [EStop ''api''])) (replicate (Suc 2) (EStart ''api'' None)))
      = [None, Some DevPodAlreadyExists, Some DevPodAlreadyExists]
   \<and> fst (Start (snd (run NewManager [EStop ''api''])) ''api'' (Some (OtherErr ''no pod'')))
      = Some (OtherErr ''no pod'')"
proof -
  have a: "registeredAlive (snd (run NewManager [EStart ''api'' None, EFinish 0 (Some DevPodLostConnection), EStart ''api'' None])) ''api'' = [1]"
    by (simp add: Start_unfold aliveRegistered_def NewManager_def newDevPod_def devPod_Start_def
      Alive_def devPod_finish_def registeredAlive_def)
  have b: "aliveRegistered (snd (run NewManager [EStop ''api''])) ''api'' = False"
    by (simp add: aliveRegistered_def NewManager_def Stop_def stop_def)
  have "aliveSessions (snd (run NewManager [EStart ''api'' None, EFinish 0 (Some DevPodLostConnection), EStart ''api'' None])) ''api''
      = registeredAlive (snd (run NewManager [EStart ''api'' None, EFinish 0 (Some DevPodLostConnection), EStart ''api'' None])) ''api''"
    using C1_one_alive_session_per_name [of "[EStart ''api'' None, EFinish 0 (Some DevPodLostConnection), EStart ''api'' None]" "''api''" 0 None]
    by (rule conjunct1)
  then have one: "aliveSessions (snd (run NewManager [EStart ''api'' None, EFinish 0 (Some DevPodLostConnection), EStart ''api'' None])) ''api'' = [1]"
    by (simp only: a)
  have "fst (run (snd (run NewManager [EStop ''api''])) (replicate (Suc 2) (EStart ''api'' None))) =
       (if aliveRegistered (snd (run NewManager [EStop ''api''])) ''api'' then Some DevPodAlreadyExists else None)
         # replicate 2 (Some DevPodAlreadyExists)"
    using C1_one_alive_session_per_name [of "[EStop ''api'']" "''api''" 2 None] by (elim conjE)
  then have two: "fst (run (snd (run NewManager [EStop ''api''])) (replicate (Suc 2) (EStart ''api'' None)))
      = [None, Some DevPodAlreadyExists, Some DevPodAlreadyExists]"
    by (simp only: b if_False) (simp add: numeral_2_eq_2)
  have "fst (Start (snd (run NewManager [EStop ''api''])) ''api'' (Some (OtherErr ''no pod''))) =
       (if aliveRegistered (snd (run NewManager [EStop ''api''])) ''api'' then Some DevPodAlreadyExists
        else Some (OtherErr ''no pod''))"
    using C1_one_alive_session_per_name [of "[EStop ''api'']" "''api''" 0 "Some (OtherErr ''no pod'')"]
    by (elim conjE)
  then have three: "fst (Start (snd (run NewManager [EStop ''api''])) ''api'' (Some (OtherErr ''no pod'')))
      = Some (OtherErr ''no pod'')"
    by (simp only: b if_False)
  from one two three show ?thesis by (intro conjI)
qed

subsection \<open>The restart loop ends when an attempt ends it\<close>

lemma restartLoop_ends:
  assumes "endsLoop env n d (i + k)" and "\<And>j. j < k \<Longrightarrow> \<not> endsLoop env n d (i + j)"
  shows "restartLoop (Suc k + extra) env n i (managerBefore env n d i) =
     Some (failedRounds env n d i k @ [CallStart n],
           snd (Start (managerBefore env n d (i + k)) n (startResult env (i + k))))"
  using assms
proof (induction k arbitrary: i)
  case 0
  then have e: "endsLoop env n d i" by simp
  obtain r d' where st: "Start (managerBefore env n d i) n (startResult env i) = (r, d')"
    by (cases "Start (managerBefore env n d i) n (startResult env i)")
  from e st have "r = None \<or> ctxDoneAfter env i \<or> r = Some DevPodAlreadyExists"
    by (simp add: endsLoop_def attemptResult_def)
  then show ?case
    using st by (cases r) (auto simp del: managerBefore.simps)
next
  case (Suc k)
  have ne: "\<not> endsLoop env n d i" using Suc.prems(2) [of 0] by simp
  obtain r d' where st: "Start (managerBefore env n d i) n (startResult env i) = (r, d')"
    by (cases "Start (managerBefore env n d i) n (startResult env i)")
  from ne st obtain e where r: "r = Some e" "e \<noteq> DevPodAlreadyExists" "\<not> ctxDoneAfter env i"
    by (cases r) (auto simp: endsLoop_def attemptResult_def)
  have nxt: "snd (run d' (during env i)) = managerBefore env n d (Suc i)"
    using st by simp
  have e': "endsLoop env n d (Suc i + k)" using Suc.prems(1) by simp
  have n': "\<And>j. j < k \<Longrightarrow> \<not> endsLoop env n d (Suc i + j)"
    using Suc.prems(2) [of "Suc _"] by simp
  have ih: "restartLoop (Suc k + extra) env n (Suc i) (managerBefore env n d (Suc i)) =
     Some (failedRounds env n d (Suc i) k @ [CallStart n],
           snd (Start (managerBefore env n d (Suc i + k)) n (startResult env (Suc i + k))))"
    by (rule Suc.IH [OF e' n'])
  have ar: "attemptResult env n d i = Some e"
    using st r by (simp add: attemptResult_def)
  have "restartLoop (Suc (Suc k + extra)) env n i (managerBefore env n d i) =
     Some (CallStart n # LogInfof n e # Sleep 10 # failedRounds env n d (Suc i) k @ [CallStart n],
           snd (Start (managerBefore env n d (Suc i + k)) n (startResult env (Suc i + k))))"
    using st r nxt ih by (simp del: managerBefore.simps)
  then show ?case using ar by (simp del: managerBefore.simps)
qed

lemma restartLoop_never:
  assumes "\<And>j. \<not> endsLoop env n d (i + j)"
  shows "restartLoop fuel env n i (managerBefore env n d i) = None"
  using assms
proof (induction fuel arbitrary: i)
  case 0
  then show ?case by simp
next
  case (Suc fuel)
  have ne: "\<not> endsLoop env n d i" using Suc.prems [of 0] by simp
  obtain r d' where st: "Start (managerBefore env n d i) n (startResult env i) = (r, d')"
    by (cases "Start (managerBefore env n d i) n (startResult env i)")
  from ne st obtain e where r: "r = Some e" "e \<noteq> DevPodAlreadyExists" "\<not> ctxDoneAfter env i"
    by (cases r) (auto simp: endsLoop_def attemptResult_def)
  have nxt: "snd (run d' (during env i)) = managerBefore env n d (Suc i)"
    using st by simp
  have "restartLoop fuel env n (Suc i) (managerBefore env n d (Suc i)) = None"
    using Suc.prems [of "Suc _"] by (intro Suc.IH) simp
  then show ?case using st r nxt by (simp del: managerBefore.simps)
qed

lemma sleptSeconds_failedRounds:
  assumes "\<And>j. j < k \<Longrightarrow> \<not> endsLoop env n d (i + j)"
  shows "sleptSeconds (failedRounds env n d i k) = 10 * k
     \<and> length (filter (\<lambda>a. a = CallStart n) (failedRounds env n d i k)) = k"
  using assms
proof (induction k arbitrary: i)
  case 0
  then show ?case by simp
next
  case (Suc k)
  have ne: "\<not> endsLoop env n d i" using Suc.prems [of 0] by simp
  then obtain e where ar: "attemptResult env n d i = Some e"
    by (cases "attemptResult env n d i") (auto simp: endsLoop_def)
  have "sleptSeconds (failedRounds env n d (Suc i) k) = 10 * k
     \<and> length (filter (\<lambda>a. a = CallStart n) (failedRounds env n d (Suc i) k)) = k"
    using Suc.prems [of "Suc _"] by (intro Suc.IH) simp
  then show ?case using ar by simp
qed

text \<open>
  C3: the goroutine that \<^verbatim>\<open>Start\<close> leaves behind. When the session is done and the context
  is cancelled it does nothing; when the terminal error is not a lost connection it does
  nothing. On a lost connection it calls \<^verbatim>\<open>Start\<close> again and again for the same name: each
  failed attempt that does not end the loop is followed by one log line and a sleep of 10
  seconds, and the loop ends at the first attempt \<open>k\<close> that succeeds, or fails with the
  context cancelled, or returns the conflict, with nothing logged and nothing returned for
  that attempt; so \<open>k + 1\<close> calls are made and \<open>10 * k\<close> seconds slept. With enough fuel
  (\<open>k + 1\<close> attempts) the loop returns; when no attempt ends it, it never returns.
\<close>

theorem C3_restart_loop:
  "restartWatcher fuel env n True dpErr d = Some ([], d)
   \<and> (dpErr \<noteq> Some DevPodLostConnection \<longrightarrow> restartWatcher fuel env n False dpErr d = Some ([], d))
   \<and> (endsLoop env n d k \<and> (\<forall>j<k. \<not> endsLoop env n d j) \<longrightarrow>
        restartWatcher (Suc k + extra) env n False (Some DevPodLostConnection) d =
          Some (failedRounds env n d 0 k @ [CallStart n],
                snd (Start (managerBefore env n d k) n (startResult env k)))
        \<and> sleptSeconds (failedRounds env n d 0 k) = 10 * k
        \<and> length (filter (\<lambda>a. a = CallStart n) (failedRounds env n d 0 k @ [CallStart n])) = Suc k)
   \<and> ((\<forall>j. \<not> endsLoop env n d j) \<longrightarrow>
        restartWatcher fuel env n False (Some DevPodLostConnection) d = None)"
proof (intro conjI impI)
  show "restartWatcher fuel env n True dpErr d = Some ([], d)"
    by (simp add: restartWatcher_def)
next
  assume "dpErr \<noteq> Some DevPodLostConnection"
  then show "restartWatcher fuel env n False dpErr d = Some ([], d)"
    by (simp add: restartWatcher_def)
next
  assume a: "endsLoop env n d k \<and> (\<forall>j<k. \<not> endsLoop env n d j)"
  then have "restartLoop (Suc k + extra) env n 0 (managerBefore env n d 0) =
     Some (failedRounds env n d 0 k @ [CallStart n],
           snd (Start (managerBefore env n d (0 + k)) n (startResult env (0 + k))))"
    by (intro restartLoop_ends) simp_all
  then show "restartWatcher (Suc k + extra) env n False (Some DevPodLostConnection) d =
          Some (failedRounds env n d 0 k @ [CallStart n],
                snd (Start (managerBefore env n d k) n (startResult env k)))"
    by (simp add: restartWatcher_def)
  have s: "sleptSeconds (failedRounds env n d 0 k) = 10 * k
     \<and> length (filter (\<lambda>a. a = CallStart n) (failedRounds env n d 0 k)) = k"
    using a by (intro sleptSeconds_failedRounds) simp
  then show "sleptSeconds (failedRounds env n d 0 k) = 10 * k" by simp
  show "length (filter (\<lambda>a. a = CallStart n) (failedRounds env n d 0 k @ [CallStart n])) = Suc k"
    using s by simp
next
  assume "\<forall>j. \<not> endsLoop env n d j"
  then have "restartLoop fuel env n 0 (managerBefore env n d 0) = None"
    by (intro restartLoop_never) simp
  then show "restartWatcher fuel env n False (Some DevPodLostConnection) d = None"
    by (simp add: restartWatcher_def)
qed

theorem C3_restart_loop_witness:
  "map_option fst (restartWatcher (Suc 2 + 0)
      \<lparr>startResult = (\<lambda>i. if i < 2 then Some (OtherErr ''no route'') else None),
       ctxDoneAfter = (\<lambda>i. False), during = (\<lambda>i. [EFinish (Suc i) None])\<rparr>
      ''api'' False (Some DevPodLostConnection)
      (snd (run NewManager [EStart ''api'' None, EFinish 0 (Some DevPodLostConnection)])))
   = Some [CallStart ''api'', LogInfof ''api'' (OtherErr ''no route''), Sleep 10,
           CallStart ''api'', LogInfof ''api'' (OtherErr ''no route''), Sleep 10,
           CallStart ''api'']"
proof -
  let ?env = "\<lparr>startResult = (\<lambda>i. if i < 2 then Some (OtherErr ''no route'') else None),
       ctxDoneAfter = (\<lambda>i. False), during = (\<lambda>i. [EFinish (Suc i) None])\<rparr>"
  let ?d = "snd (run NewManager [EStart ''api'' None, EFinish 0 (Some DevPodLostConnection)])"
  have d: "?d = \<lparr>devPods = [''api'' \<mapsto> 0],
      pods = [\<lparr>sname = ''api'', doneFired = True, terminal = Some DevPodLostConnection\<rparr>],
      loggers = [''api'']\<rparr>"
    by (simp add: Start_unfold aliveRegistered_def NewManager_def newDevPod_def devPod_Start_def
      Alive_def devPod_finish_def)
  have m1: "managerBefore ?env ''api'' ?d (Suc 0) = \<lparr>devPods = [''api'' \<mapsto> 1],
      pods = [\<lparr>sname = ''api'', doneFired = True, terminal = Some DevPodLostConnection\<rparr>,
              \<lparr>sname = ''api'', doneFired = True, terminal = None\<rparr>],
      loggers = [''api'', ''api'']\<rparr>"
    unfolding d
    by (simp add: Start_unfold aliveRegistered_def newDevPod_def devPod_Start_def
      Alive_def devPod_finish_def)
  have m2: "managerBefore ?env ''api'' ?d (Suc (Suc 0)) = \<lparr>devPods = [''api'' \<mapsto> Suc (Suc 0)],
      pods = [\<lparr>sname = ''api'', doneFired = True, terminal = Some DevPodLostConnection\<rparr>,
              \<lparr>sname = ''api'', doneFired = True, terminal = None\<rparr>,
              \<lparr>sname = ''api'', doneFired = True, terminal = None\<rparr>],
      loggers = [''api'', ''api'', ''api'']\<rparr>"
    unfolding managerBefore.simps(2) [of _ _ _ "Suc 0"] m1
    by (simp add: Start_unfold aliveRegistered_def newDevPod_def devPod_Start_def
      Alive_def devPod_finish_def)
  have a0: "attemptResult ?env ''api'' ?d 0 = Some (OtherErr ''no route'')"
    unfolding attemptResult_def managerBefore.simps(1) d
    by (simp add: Start_unfold aliveRegistered_def Alive_def)
  have a1: "attemptResult ?env ''api'' ?d (Suc 0) = Some (OtherErr ''no route'')"
    unfolding attemptResult_def m1
    by (simp add: Start_unfold aliveRegistered_def Alive_def)
  have a2: "attemptResult ?env ''api'' ?d (Suc (Suc 0)) = None"
    unfolding attemptResult_def m2
    by (simp add: Start_unfold aliveRegistered_def Alive_def)
  have e2: "endsLoop ?env ''api'' ?d 2"
    using a2 by (simp add: endsLoop_def numeral_2_eq_2)
  have ne: "\<forall>j<2. \<not> endsLoop ?env ''api'' ?d j"
  proof (intro allI impI)
    fix j :: nat assume "j < 2"
    then have "j = 0 \<or> j = Suc 0" by auto
    then show "\<not> endsLoop ?env ''api'' ?d j"
      using a0 a1 by (auto simp: endsLoop_def)
  qed
  have fr: "failedRounds ?env ''api'' ?d 0 2 =
     [CallStart ''api'', LogInfof ''api'' (OtherErr ''no route''), Sleep 10,
      CallStart ''api'', LogInfof ''api'' (OtherErr ''no route''), Sleep 10]"
    using a0 a1 by (simp add: numeral_2_eq_2)
  have "restartWatcher (Suc 2 + 0) ?env ''api'' False (Some DevPodLostConnection) ?d =
          Some (failedRounds ?env ''api'' ?d 0 2 @ [CallStart ''api''],
                snd (Start (managerBefore ?env ''api'' ?d 2) ''api'' (startResult ?env 2)))"
    using C3_restart_loop [of 0 ?env "''api''" None ?d 2 0] e2 ne by blast
  then show ?thesis by (simp only: fr) simp
qed


section \<open>Properties of port forwarding\<close>

lemma portLoop_all_defined:
  "(\<And>v. v \<in> set pms \<Longrightarrow> LocalPort v \<noteq> None) \<Longrightarrow>
   portLoop check index pms = (concat (map (portWarning check) pms), Inr (map portPair pms, map portAddress pms))"
proof (induction pms arbitrary: index)
  case Nil
  then show ?case by simp
next
  case (Cons v rest)
  from Cons.prems obtain lp where lp: "LocalPort v = Some lp" by auto
  have ih: "portLoop check (Suc index) rest =
      (concat (map (portWarning check) rest), Inr (map portPair rest, map portAddress rest))"
    using Cons.prems by (intro Cons.IH) simp
  have hd: "portWarning check v = (if check lp then []
         else [LogWarnf (''Seems like port '' @ Itoa lp @
                 '' is already in use. Is another application using that port?'')])"
    "portAddress v = (if BindAddress v = [] then ''localhost'' else BindAddress v)"
    "portPair v = Itoa lp @ '':'' @ (case RemotePort v of None \<Rightarrow> Itoa lp | Some rp \<Rightarrow> Itoa rp)"
    using lp by (simp_all add: portWarning_def portAddress_def portPair_def split: option.splits)
  show ?case
    using lp ih by (simp add: hd Let_def)
qed

lemma portLoop_undefined:
  assumes "\<And>v. v \<in> set xs \<Longrightarrow> LocalPort v \<noteq> None" and "LocalPort u = None"
  shows "portLoop check index (xs @ u # ys) =
     (concat (map (portWarning check) xs),
      Inl (ErrorMsg (''port is not defined in portmapping '' @ Itoa (int (index + length xs)))))"
  using assms(1)
proof (induction xs arbitrary: index)
  case Nil
  then show ?case using assms(2) by simp
next
  case (Cons v rest)
  from Cons.prems obtain lp where lp: "LocalPort v = Some lp" by auto
  have ih: "portLoop check (Suc index) (rest @ u # ys) =
     (concat (map (portWarning check) rest),
      Inl (ErrorMsg (''port is not defined in portmapping '' @ Itoa (int (Suc index + length rest)))))"
    using Cons.prems by (intro Cons.IH) simp
  have hd: "portWarning check v = (if check lp then []
         else [LogWarnf (''Seems like port '' @ Itoa lp @
                 '' is already in use. Is another application using that port?'')])"
    using lp by (simp add: portWarning_def)
  show ?case
    using lp ih by (simp add: hd Let_def)
qed

lemma itoa8080: "Itoa 8080 = ''8080''"
  by (simp add: Itoa_def decimal.simps digitChar_def)

lemma itoa1: "Itoa 1 = ''1''"
  by (simp add: Itoa_def decimal.simps digitChar_def)

text \<open>
  C5: the loop over the port mappings. When mapping \<open>i\<close> is the first without a local port,
  the loop stops with the error that names \<open>i\<close>, and \<^verbatim>\<open>startForwarding\<close> returns it at
  once, having built no forwarder. When every mapping has a local port, the pairs are the
  local port and the remote port, which is the local port when unset (\<open>8080:8080\<close> for a
  mapping with the local port 8080 alone), the addresses are \<^verbatim>\<open>localhost\<close> when unset, and
  a port that does not look open adds a warning and nothing else: the pairs and the
  addresses do not depend on the check.
\<close>

theorem C5_port_mapping_defaults:
  "(i < length pms \<and> LocalPort (pms ! i) = None \<and> (\<forall>j<i. LocalPort (pms ! j) \<noteq> None) \<longrightarrow>
      snd (portLoop check 0 pms) = Inl (ErrorMsg (''port is not defined in portmapping '' @ Itoa (int i)))
      \<and> (\<not> ctxIsDone env \<and> selectSinglePod env = Inr (Some pod) \<longrightarrow>
           startForwarding env name pms =
             (Some (ErrorMsg (''port is not defined in portmapping '' @ Itoa (int i))),
              concat (map (portWarning (portCheck env)) (take i pms)))))
   \<and> ((\<forall>v\<in>set pms. LocalPort v \<noteq> None) \<longrightarrow>
        portLoop check 0 pms =
          (concat (map (portWarning check) pms), Inr (map portPair pms, map portAddress pms)))
   \<and> portPair \<lparr>LocalPort = Some 8080, RemotePort = None, BindAddress = []\<rparr> = ''8080:8080''
   \<and> portAddress \<lparr>LocalPort = Some 8080, RemotePort = None, BindAddress = []\<rparr> = ''localhost''"
proof (intro conjI impI)
  assume a: "i < length pms \<and> LocalPort (pms ! i) = None \<and> (\<forall>j<i. LocalPort (pms ! j) \<noteq> None)"
  have split: "pms = take i pms @ pms ! i # drop (Suc i) pms"
    using a by (simp add: id_take_nth_drop)
  have def: "\<And>v. v \<in> set (take i pms) \<Longrightarrow> LocalPort v \<noteq> None"
  proof -
    fix v assume "v \<in> set (take i pms)"
    then obtain j where "j < length (take i pms)" "take i pms ! j = v"
      by (auto simp: in_set_conv_nth)
    then have "j < i" "pms ! j = v" using a by auto
    then show "LocalPort v \<noteq> None" using a by auto
  qed
  have len: "length (take i pms) = i" using a by simp
  have pl: "\<And>chk. portLoop chk 0 (take i pms @ pms ! i # drop (Suc i) pms) =
     (concat (map (portWarning chk) (take i pms)),
      Inl (ErrorMsg (''port is not defined in portmapping '' @ Itoa (int (0 + length (take i pms))))))"
    using def a by (intro portLoop_undefined) auto
  have pl': "\<And>chk. portLoop chk 0 pms =
     (concat (map (portWarning chk) (take i pms)),
      Inl (ErrorMsg (''port is not defined in portmapping '' @ Itoa (int i))))"
    using pl split len by simp
  show "snd (portLoop check 0 pms) = Inl (ErrorMsg (''port is not defined in portmapping '' @ Itoa (int i)))"
    using pl' by simp
  assume "\<not> ctxIsDone env \<and> selectSinglePod env = Inr (Some pod)"
  then show "startForwarding env name pms =
             (Some (ErrorMsg (''port is not defined in portmapping '' @ Itoa (int i))),
              concat (map (portWarning (portCheck env)) (take i pms)))"
    using pl' [of "portCheck env"] by (simp add: startForwarding_def)
next
  assume "\<forall>v\<in>set pms. LocalPort v \<noteq> None"
  then show "portLoop check 0 pms =
          (concat (map (portWarning check) pms), Inr (map portPair pms, map portAddress pms))"
    by (intro portLoop_all_defined) auto
next
  show "portPair \<lparr>LocalPort = Some 8080, RemotePort = None, BindAddress = []\<rparr> = ''8080:8080''"
    by (simp add: portPair_def itoa8080)
next
  show "portAddress \<lparr>LocalPort = Some 8080, RemotePort = None, BindAddress = []\<rparr> = ''localhost''"
    by (simp add: portAddress_def)
qed

theorem C5_port_mapping_defaults_witness:
  "snd (portLoop (\<lambda>p. False) 0
      [\<lparr>LocalPort = Some 8080, RemotePort = None, BindAddress = []\<rparr>,
       \<lparr>LocalPort = None, RemotePort = Some 80, BindAddress = []\<rparr>])
     = Inl (ErrorMsg ''port is not defined in portmapping 1'')
   \<and> portLoop (\<lambda>p. False) 0 [\<lparr>LocalPort = Some 8080, RemotePort = None, BindAddress = []\<rparr>]
     = ([LogWarnf ''Seems like port 8080 is already in use. Is another application using that port?''],
        Inr ([''8080:8080''], [''localhost'']))"
proof -
  let ?a = "\<lparr>LocalPort = Some 8080, RemotePort = None, BindAddress = []\<rparr>"
  let ?b = "\<lparr>LocalPort = None, RemotePort = Some 80, BindAddress = []\<rparr>"
  have h1: "(1::nat) < length [?a, ?b] \<and> LocalPort ([?a, ?b] ! 1) = None
      \<and> (\<forall>j<1. LocalPort ([?a, ?b] ! j) \<noteq> None)"
    by simp
  have one: "snd (portLoop (\<lambda>p. False) 0 [?a, ?b])
     = Inl (ErrorMsg (''port is not defined in portmapping '' @ Itoa (int 1)))"
    using C5_port_mapping_defaults [of 1 "[?a, ?b]" "\<lambda>p. False"] h1 by blast
  have h2: "\<forall>v\<in>set [?a]. LocalPort v \<noteq> None" by simp
  have two: "portLoop (\<lambda>p. False) 0 [?a]
     = (concat (map (portWarning (\<lambda>p. False)) [?a]), Inr (map portPair [?a], map portAddress [?a]))"
    using C5_port_mapping_defaults [of 0 "[?a]" "\<lambda>p. False"] h2 by blast
  show ?thesis
    using one two by (simp add: itoa1 itoa8080 portWarning_def portPair_def portAddress_def)
qed

text \<open>
  C4: once the forwarder is built and started, the \<^verbatim>\<open>select\<close> decides. When the context
  is done first, \<^verbatim>\<open>startForwarding\<close> returns nil; when the forwarder is ready first, it
  logs the confirmation with the port pairs and the namespace and name of the pod, puts
  the watcher on the task tree and returns nil; when an error arrives first, it returns the
  error wrapped with \<^verbatim>\<open>forward ports\<close>; when 20 seconds pass first, it returns the timeout
  error.
\<close>

theorem C4_four_way_race:
  assumes "\<not> ctxIsDone env" and "selectSinglePod env = Inr (Some pod)"
    and "portLoop (portCheck env) 0 pms = (log, Inr (ports, addresses))"
    and "newPortForwarder env = None"
  shows "(race env = CtxDone \<longrightarrow>
            startForwarding env name pms = (None, log @ [NewPortForwarder pod ports addresses, ForwardPorts]))
     \<and> (race env = Ready \<longrightarrow>
            startForwarding env name pms =
              (None, log @ [NewPortForwarder pod ports addresses, ForwardPorts,
                 LogDonef (''Port forwarding started on '' @ Join ports '', '' @ '' ('' @
                           PodNamespace pod @ ''/'' @ PodName pod @ '')''),
                 GoWatcher]))
     \<and> (race env = ErrorSignal err \<longrightarrow>
            startForwarding env name pms =
              (Some (Wrapped err ''forward ports''), log @ [NewPortForwarder pod ports addresses, ForwardPorts]))
     \<and> (race env = Timeout \<longrightarrow>
            startForwarding env name pms =
              (Some (ErrorMsg ''Timeout waiting for port forwarding to start''),
               log @ [NewPortForwarder pod ports addresses, ForwardPorts, After 20]))"
  using assms by (simp add: startForwarding_def)

theorem C4_four_way_race_witness:
  "startForwarding
     \<lparr>ctxIsDone = False, selectSinglePod = Inr (Some \<lparr>PodNamespace = ''default'', PodName = ''api-0''\<rparr>),
      portCheck = (\<lambda>p. True), newPortForwarder = None, race = Ready\<rparr>
     ''api'' [\<lparr>LocalPort = Some 8080, RemotePort = None, BindAddress = []\<rparr>]
   = (None,
      [NewPortForwarder \<lparr>PodNamespace = ''default'', PodName = ''api-0''\<rparr> [''8080:8080''] [''localhost''],
       ForwardPorts,
       LogDonef ''Port forwarding started on 8080:8080 (default/api-0)'',
       GoWatcher])"
proof -
  let ?pod = "\<lparr>PodNamespace = ''default'', PodName = ''api-0''\<rparr>"
  let ?env = "\<lparr>ctxIsDone = False, selectSinglePod = Inr (Some ?pod),
      portCheck = (\<lambda>p. True), newPortForwarder = None, race = Ready\<rparr>"
  let ?pms = "[\<lparr>LocalPort = Some 8080, RemotePort = None, BindAddress = []\<rparr>]"
  have a: "\<not> ctxIsDone ?env" by simp
  have b: "selectSinglePod ?env = Inr (Some ?pod)" by simp
  have c: "portLoop (portCheck ?env) 0 ?pms = ([], Inr ([''8080:8080''], [''localhost'']))"
    by (simp add: Let_def itoa8080)
  have d: "newPortForwarder ?env = None" by simp
  have r: "race ?env = Ready" by simp
  show ?thesis
    using C4_four_way_race [OF a b c d, of "''api''"] r by simp
qed

lemma retryLoop_ends:
  assumes "endsRetry env name pms (i + k)" and "\<And>j. j < k \<Longrightarrow> \<not> endsRetry env name pms (i + j)"
  shows "retryLoop (Suc k + extra) env name pms i =
     Some (retryRounds env name pms i k @ lastRound env name pms (i + k))"
  using assms
proof (induction k arbitrary: i)
  case 0
  then have e: "endsRetry env name pms i" by simp
  obtain r log where st: "startForwarding (attempt env i) name pms = (r, log)"
    by (cases "startForwarding (attempt env i) name pms")
  show ?case
  proof (cases r)
    case None
    then show ?thesis using st by (simp add: lastRound_def)
  next
    case (Some err)
    then have "waitCancelled env i" using e st by (simp add: endsRetry_def)
    then show ?thesis using st Some by (simp add: lastRound_def)
  qed
next
  case (Suc k)
  have ne: "\<not> endsRetry env name pms i" using Suc.prems(2) [of 0] by simp
  obtain r log where st: "startForwarding (attempt env i) name pms = (r, log)"
    by (cases "startForwarding (attempt env i) name pms")
  from ne st obtain err where r: "r = Some err" "\<not> waitCancelled env i"
    by (cases r) (auto simp: endsRetry_def)
  have e': "endsRetry env name pms (Suc i + k)" using Suc.prems(1) by simp
  have n': "\<And>j. j < k \<Longrightarrow> \<not> endsRetry env name pms (Suc i + j)"
    using Suc.prems(2) [of "Suc _"] by simp
  have ih: "retryLoop (Suc k + extra) env name pms (Suc i) =
     Some (retryRounds env name pms (Suc i) k @ lastRound env name pms (Suc i + k))"
    by (rule Suc.IH [OF e' n'])
  show ?case using st r ih by simp
qed

lemma retryLoop_never:
  assumes "\<And>j. \<not> endsRetry env name pms (i + j)"
  shows "retryLoop fuel env name pms i = None"
  using assms
proof (induction fuel arbitrary: i)
  case 0
  then show ?case by simp
next
  case (Suc fuel)
  have ne: "\<not> endsRetry env name pms i" using Suc.prems [of 0] by simp
  obtain r log where st: "startForwarding (attempt env i) name pms = (r, log)"
    by (cases "startForwarding (attempt env i) name pms")
  from ne st obtain err where r: "r = Some err" "\<not> waitCancelled env i"
    by (cases r) (auto simp: endsRetry_def)
  have "retryLoop fuel env name pms (Suc i) = None"
    using Suc.prems [of "Suc _"] by (intro Suc.IH) simp
  then show ?case using st r by simp
qed

text \<open>
  C6, as the claim states it: on a mid-flight error the watcher logs, invokes the restart
  hooks, closes the old forwarder and then retries until an attempt succeeds or the
  context is cancelled. In this run the forwarder is closed before the restart hooks run,
  and the loop ends at its first attempt although that attempt established nothing (no pod
  was selected, so \<^verbatim>\<open>startForwarding\<close> returned nil) and the context is not cancelled.
\<close>

theorem C6_close_before_hooks_no_pod_counterexample:
  "watcher 1
     \<lparr>watched = WatchError (Some (ErrorMsg ''lost connection to pod'')),
      attempt = (\<lambda>i. \<lparr>ctxIsDone = False, selectSinglePod = Inr None, portCheck = (\<lambda>p. True),
                       newPortForwarder = None, race = Ready\<rparr>),
      waitCancelled = (\<lambda>i. False)\<rparr>
     ''api'' [\<lparr>LocalPort = Some 8080, RemotePort = None, BindAddress = []\<rparr>]
   = Some (None,
       [FileErrorf ''Portforwarding restarting, because: lost connection to pod'',
        PrintPodError, PfClose,
        LogExecuteHooks ''restart:portForwarding'' ''api'' (Some (ErrorMsg ''lost connection to pod''))])"
  by (simp add: watcher_def startForwarding_def)

text \<open>
  C6, amended: a forwarding set that became ready puts a watcher on the task tree. When the
  context is done first, the watcher closes the forwarder, runs the stop hooks, kills the
  tree, logs that forwarding stopped and returns nil. On a mid-flight error it logs the
  error once, prints the pod error, closes the old forwarder, then runs the restart hooks,
  then calls \<^verbatim>\<open>startForwarding\<close> in a loop: an attempt that returns an error is followed by
  the restart hooks, two log lines and a wait of 15 seconds, and the loop ends at the first
  attempt \<open>k\<close> that returns no error (forwarding established, no pod selected, or the
  context done) or whose wait is cut short by the context, in which case the stop hooks
  run. With enough fuel the watcher returns, always nil; when no attempt ends the loop it
  never returns.
\<close>

theorem C6_watcher:
  "(watched env = WatchCtxDone \<longrightarrow>
      watcher fuel env name pms =
        Some (None, [PfClose, LogExecuteHooks ''stop:portForwarding'' name None, Kill,
                     FileDone ''Stopped port forwarding'']))
   \<and> (watched env = WatchError (Some err) \<and> endsRetry env name pms k
        \<and> (\<forall>j<k. \<not> endsRetry env name pms j) \<longrightarrow>
      watcher (Suc k + extra) env name pms =
        Some (None,
          [FileErrorf (''Portforwarding restarting, because: '' @ errorText err),
           PrintPodError, PfClose,
           LogExecuteHooks ''restart:portForwarding'' name (Some err)]
          @ retryRounds env name pms 0 k @ lastRound env name pms k))
   \<and> (watched env = WatchError (Some err) \<and> (\<forall>j. \<not> endsRetry env name pms j) \<longrightarrow>
      watcher fuel env name pms = None)
   \<and> (\<not> ctxIsDone senv \<and> selectSinglePod senv = Inr (Some pod)
        \<and> portLoop (portCheck senv) 0 pms = (log, Inr (ports, addresses))
        \<and> newPortForwarder senv = None \<and> race senv = Ready \<longrightarrow>
      fst (startForwarding senv name pms) = None
      \<and> last (snd (startForwarding senv name pms)) = GoWatcher)"
proof (intro conjI impI)
  assume "watched env = WatchCtxDone"
  then show "watcher fuel env name pms =
        Some (None, [PfClose, LogExecuteHooks ''stop:portForwarding'' name None, Kill,
                     FileDone ''Stopped port forwarding''])"
    by (simp add: watcher_def stopPortForwarding_def)
next
  assume a: "watched env = WatchError (Some err) \<and> endsRetry env name pms k
        \<and> (\<forall>j<k. \<not> endsRetry env name pms j)"
  then have "retryLoop (Suc k + extra) env name pms 0 =
     Some (retryRounds env name pms 0 k @ lastRound env name pms (0 + k))"
    by (intro retryLoop_ends) simp_all
  then show "watcher (Suc k + extra) env name pms =
        Some (None,
          [FileErrorf (''Portforwarding restarting, because: '' @ errorText err),
           PrintPodError, PfClose,
           LogExecuteHooks ''restart:portForwarding'' name (Some err)]
          @ retryRounds env name pms 0 k @ lastRound env name pms k)"
    using a by (simp add: watcher_def)
next
  assume a: "watched env = WatchError (Some err) \<and> (\<forall>j. \<not> endsRetry env name pms j)"
  then have "retryLoop fuel env name pms 0 = None"
    by (intro retryLoop_never) simp
  then show "watcher fuel env name pms = None"
    using a by (simp add: watcher_def)
next
  assume a: "\<not> ctxIsDone senv \<and> selectSinglePod senv = Inr (Some pod)
        \<and> portLoop (portCheck senv) 0 pms = (log, Inr (ports, addresses))
        \<and> newPortForwarder senv = None \<and> race senv = Ready"
  then show "fst (startForwarding senv name pms) = None"
    by (simp add: startForwarding_def)
  from a show "last (snd (startForwarding senv name pms)) = GoWatcher"
    by (simp add: startForwarding_def)
qed

theorem C6_watcher_witness:
  "watcher (Suc 1 + 0)
     \<lparr>watched = WatchError (Some (ErrorMsg ''lost connection to pod'')),
      attempt = (\<lambda>i. \<lparr>ctxIsDone = False,
                       selectSinglePod = (if i = 0 then Inl (ErrorMsg ''timed out'')
                                          else Inr (Some \<lparr>PodNamespace = ''default'', PodName = ''api-0''\<rparr>)),
                       portCheck = (\<lambda>p. True), newPortForwarder = None, race = Ready\<rparr>),
      waitCancelled = (\<lambda>i. False)\<rparr>
     ''api'' [\<lparr>LocalPort = Some 8080, RemotePort = None, BindAddress = []\<rparr>]
   = Some (None,
       [FileErrorf ''Portforwarding restarting, because: lost connection to pod'',
        PrintPodError, PfClose,
        LogExecuteHooks ''restart:portForwarding'' ''api'' (Some (ErrorMsg ''lost connection to pod'')),
        LogExecuteHooks ''restart:portForwarding'' ''api''
          (Some (Wrapped (ErrorMsg ''timed out'') ''error selecting pod'')),
        FileErrorf ''Error restarting port-forwarding: error selecting pod: timed out'',
        FileErrorf ''Will try again in 15 seconds'',
        After 15,
        NewPortForwarder \<lparr>PodNamespace = ''default'', PodName = ''api-0''\<rparr> [''8080:8080''] [''localhost''],
        ForwardPorts,
        LogDonef ''Port forwarding started on 8080:8080 (default/api-0)'',
        GoWatcher])"
proof -
  let ?pod = "\<lparr>PodNamespace = ''default'', PodName = ''api-0''\<rparr>"
  let ?env = "\<lparr>watched = WatchError (Some (ErrorMsg ''lost connection to pod'')),
      attempt = (\<lambda>i. \<lparr>ctxIsDone = False,
                       selectSinglePod = (if i = 0 then Inl (ErrorMsg ''timed out'')
                                          else Inr (Some ?pod)),
                       portCheck = (\<lambda>p. True), newPortForwarder = None, race = Ready\<rparr>),
      waitCancelled = (\<lambda>i. False)\<rparr>"
  let ?pms = "[\<lparr>LocalPort = Some 8080, RemotePort = None, BindAddress = []\<rparr>]"
  have s0: "startForwarding (attempt ?env 0) ''api'' ?pms =
      (Some (Wrapped (ErrorMsg ''timed out'') ''error selecting pod''), [])"
    by (simp add: startForwarding_def)
  have s1: "startForwarding (attempt ?env 1) ''api'' ?pms =
      (None, [NewPortForwarder ?pod [''8080:8080''] [''localhost''], ForwardPorts,
              LogDonef ''Port forwarding started on 8080:8080 (default/api-0)'', GoWatcher])"
    by (simp add: startForwarding_def Let_def itoa8080)
  have w: "watched ?env = WatchError (Some (ErrorMsg ''lost connection to pod''))" by simp
  have e1: "endsRetry ?env ''api'' ?pms 1"
    unfolding endsRetry_def s1 by simp
  have ne: "\<forall>j<1. \<not> endsRetry ?env ''api'' ?pms j"
    unfolding endsRetry_def using s0 by simp
  have rr: "retryRounds ?env ''api'' ?pms 0 1 =
      [LogExecuteHooks ''restart:portForwarding'' ''api''
          (Some (Wrapped (ErrorMsg ''timed out'') ''error selecting pod'')),
        FileErrorf ''Error restarting port-forwarding: error selecting pod: timed out'',
        FileErrorf ''Will try again in 15 seconds'',
        After 15]"
    unfolding One_nat_def retryRounds.simps s0 by (simp add: afterFailure_def)
  have lr: "lastRound ?env ''api'' ?pms 1 =
      [NewPortForwarder ?pod [''8080:8080''] [''localhost''], ForwardPorts,
       LogDonef ''Port forwarding started on 8080:8080 (default/api-0)'', GoWatcher]"
    unfolding lastRound_def s1 by simp
  have "watcher (Suc 1 + 0) ?env ''api'' ?pms =
        Some (None,
          [FileErrorf (''Portforwarding restarting, because: '' @ errorText (ErrorMsg ''lost connection to pod'')),
           PrintPodError, PfClose,
           LogExecuteHooks ''restart:portForwarding'' ''api'' (Some (ErrorMsg ''lost connection to pod''))]
          @ retryRounds ?env ''api'' ?pms 0 1 @ lastRound ?env ''api'' ?pms 1)"
    using C6_watcher [of ?env 0 "''api''" ?pms "ErrorMsg ''lost connection to pod''" 1 0] w e1 ne by blast
  then show ?thesis
    by (simp only: rr lr) simp
qed

text \<open>
  C7: the claim has one reverse set for each dev container that has reverse port mappings.
  The code asks \<^verbatim>\<open>len(devPod.PortMappingsReverse) > 0\<close>, the mappings of the dev pod and not
  those of the container at hand: a dev pod whose only reverse mappings are on a container
  of \<^verbatim>\<open>Containers\<close> starts no reverse set, and a dev pod with reverse mappings of its own
  starts a reverse set for a container that has none, with no mappings.
\<close>

theorem C7_reverse_sets_follow_inline_mappings:
  "StartPortForwarding True EachDevContainer
     \<lparr>Name = ''api'', Forward = [],
      InlineContainer = \<lparr>Container = [], Arch = [], PortMappingsReverse = []\<rparr>,
      Containers = [\<lparr>Container = ''app'', Arch = ''arm64'',
                     PortMappingsReverse = [\<lparr>LocalPort = Some 9229, RemotePort = None, BindAddress = []\<rparr>]\<rparr>]\<rparr>
     = Inr []
   \<and> StartPortForwarding True EachDevContainer
     \<lparr>Name = ''api'', Forward = [],
      InlineContainer = \<lparr>Container = [], Arch = [],
         PortMappingsReverse = [\<lparr>LocalPort = Some 9229, RemotePort = None, BindAddress = []\<rparr>]\<rparr>,
      Containers = [\<lparr>Container = ''app'', Arch = ''arm64'', PortMappingsReverse = []\<rparr>]\<rparr>
     = Inr [ReverseSet ''api'' ''arm64'' [] ''app'']"
  by (simp add: StartPortForwarding_def EachDevContainer_def)

end
